theory Spec2Isabelle
  imports Complex_Main
begin

section \<open>Data model (src/src/models.py)\<close>

text \<open>
  The values of a Python number field: a finite value (an \<open>int\<close> or a finite \<open>float\<close>,
  read as the real number it denotes; both zeros of the floats are the value 0), the two
  infinities and NaN.
\<close>

datatype number = Finite real | PosInf | NegInf | NaN

text \<open>
  Python's \<open><\<close> and \<open><=\<close> on numbers: every comparison with NaN is false. \<open>0\<close> is
  the number that \<open>if x\<close> takes for false.
\<close>

instantiation number :: "{zero, ord}"
begin

definition zero_number :: number where
  "zero_number = Finite 0"

fun less_number :: "number \<Rightarrow> number \<Rightarrow> bool" where
  "less_number (Finite x) (Finite y) = (x < y)"
| "less_number (Finite x) PosInf = True"
| "less_number NegInf (Finite y) = True"
| "less_number NegInf PosInf = True"
| "less_number a b = False"

fun less_eq_number :: "number \<Rightarrow> number \<Rightarrow> bool" where
  "less_eq_number (Finite x) (Finite y) = (x \<le> y)"
| "less_eq_number NaN b = False"
| "less_eq_number a NaN = False"
| "less_eq_number NegInf b = True"
| "less_eq_number a PosInf = True"
| "less_eq_number a b = False"

instance ..

end

text \<open>
  The dataclass \<open>Property\<close>. Optional fields are \<open>option\<close> values, \<open>float\<close> fields are
  numbers, \<open>int\<close> fields are \<open>int\<close>. The fields that the asynchronous scraper reads or
  writes are listed; the remaining ones of the dataclass are carried in the record's
  extension part.
\<close>

record property =
  prop_id :: "string option"
  title :: "string option"
  price :: "number option"
  address :: "string option"
  bedrooms :: "int option"
  bathrooms :: "number option"
  square_feet :: "number option"
  property_type :: "string option"
  source_url :: "string option"
  source_website :: "string option"

text \<open>The dataclass \<open>SearchCriteria\<close>.\<close>

record search_criteria =
  location :: string
  min_price :: "number option"
  max_price :: "number option"
  min_bedrooms :: "int option"
  max_bedrooms :: "int option"
  min_bathrooms :: "number option"
  max_bathrooms :: "number option"
  property_types :: "string list"
  max_pages :: "int option"

section \<open>Python truth values and string lowering\<close>

text \<open>
  \<open>if x\<close> on an optional number is false for \<open>None\<close> and for zero (NaN and the
  infinities are true); on an optional string it is false for \<open>None\<close> and for the empty
  string; on a list it is false for the empty list.
\<close>

definition truthy :: "'a::zero option \<Rightarrow> bool" where
  "truthy x = (case x of None \<Rightarrow> False | Some v \<Rightarrow> v \<noteq> 0)"

definition truthy_str :: "string option \<Rightarrow> bool" where
  "truthy_str x = (case x of None \<Rightarrow> False | Some s \<Rightarrow> s \<noteq> [])"

text \<open>
  \<open>str.lower\<close> on strings of code points below 256 (a \<open>char\<close> is one code point): the
  upper-case letters are the codes 65 to 90 (A to Z) and 192 to 222 without 215 (the
  accented capitals of Latin-1; 215 is the multiplication sign), and the lower-case letter
  of each has the bit of value 32 set, which adds 32 to its code. Every other code point
  below 256 is left as it is. Code points from 256 on are outside this model.
\<close>

definition lower_char :: "char \<Rightarrow> char" where
  "lower_char c =
     (if (65 \<le> (of_char c :: nat) \<and> (of_char c :: nat) \<le> 90) \<or>
         (192 \<le> (of_char c :: nat) \<and> (of_char c :: nat) \<le> 222 \<and> (of_char c :: nat) \<noteq> 215)
      then Char (digit0 c) (digit1 c) (digit2 c) (digit3 c) (digit4 c) True (digit6 c) (digit7 c)
      else c)"

definition lower :: "string \<Rightarrow> string" where
  "lower s = map lower_char s"

section \<open>The criteria post-filter (AsyncPropertyScraper.filter\_properties)\<close>

text \<open>
  Each \<open>if ... : continue\<close> of the loop body is one rejection test. The price and bedroom
  tests have the shape \<open>bound and value and value < bound\<close> (or \<open>>\<close>), so they are
  false as soon as the bound or the value is falsy, and on numbers as soon as one of the
  two is NaN.
\<close>

definition under_bound :: "'a::{zero,ord} option \<Rightarrow> 'a option \<Rightarrow> bool" where
  "under_bound bound v =
     (case bound of None \<Rightarrow> False
      | Some b \<Rightarrow> b \<noteq> 0 \<and> (case v of None \<Rightarrow> False | Some x \<Rightarrow> x \<noteq> 0 \<and> x < b))"

definition over_bound :: "'a::{zero,ord} option \<Rightarrow> 'a option \<Rightarrow> bool" where
  "over_bound bound v =
     (case bound of None \<Rightarrow> False
      | Some b \<Rightarrow> b \<noteq> 0 \<and> (case v of None \<Rightarrow> False | Some x \<Rightarrow> x \<noteq> 0 \<and> x > b))"

definition type_rejected :: "string list \<Rightarrow> string option \<Rightarrow> bool" where
  "type_rejected types t =
     (case t of None \<Rightarrow> False
      | Some s \<Rightarrow> types \<noteq> [] \<and> s \<noteq> [] \<and> lower s \<notin> set (map lower types))"

text \<open>The loop body: \<open>True\<close> when the record reaches \<open>filtered.append(prop)\<close>.\<close>

definition keeps :: "search_criteria \<Rightarrow> ('a property_scheme) \<Rightarrow> bool" where
  "keeps criteria prop =
     (if under_bound (min_price criteria) (price prop) then False
      else if over_bound (max_price criteria) (price prop) then False
      else if under_bound (min_bedrooms criteria) (bedrooms prop) then False
      else if over_bound (max_bedrooms criteria) (bedrooms prop) then False
      else if type_rejected (property_types criteria) (property_type prop) then False
      else True)"

text \<open>The loop itself, with the accumulator \<open>filtered\<close> that the source appends to.\<close>

fun filter_loop ::
  "search_criteria \<Rightarrow> ('a property_scheme) list \<Rightarrow> ('a property_scheme) list
     \<Rightarrow> ('a property_scheme) list" where
  "filter_loop criteria filtered [] = filtered"
| "filter_loop criteria filtered (prop # props) =
     (if keeps criteria prop then filter_loop criteria (filtered @ [prop]) props
      else filter_loop criteria filtered props)"

definition filter_properties ::
  "('a property_scheme) list \<Rightarrow> search_criteria \<Rightarrow> ('a property_scheme) list" where
  "filter_properties properties criteria = filter_loop criteria [] properties"

section \<open>Errors and the scraper object\<close>

text \<open>
  The exceptions that the modelled code can meet and that are instances of \<open>Exception\<close>,
  as values. \<open>str_of_error\<close> is Python's \<open>str(e)\<close>.
\<close>

datatype py_error =
    ZeroDivisionError
  | OverflowError
  | IndexError
  | TimeoutError
  | ValueError string
  | Exception string

fun str_of_error :: "py_error \<Rightarrow> string" where
  "str_of_error ZeroDivisionError = ''division by zero''"
| "str_of_error OverflowError = ''integer division result too large for a float''"
| "str_of_error IndexError = ''list index out of range''"
| "str_of_error TimeoutError = []"
| "str_of_error (ValueError m) = m"
| "str_of_error (Exception m) = m"

text \<open>
  An exception object, as a task can end with it or a list can hold it: an instance of
  \<open>Exception\<close> (one of the above), or \<open>asyncio.CancelledError\<close>, which derives from
  \<open>BaseException\<close> and not from \<open>Exception\<close>, so that \<open>except Exception\<close> does not catch
  it. \<open>is_exception e\<close> is \<open>isinstance(e, Exception)\<close>.
\<close>

datatype base_exception = CancelledError | Instance py_error

fun is_exception :: "base_exception \<Rightarrow> bool" where
  "is_exception CancelledError = False"
| "is_exception (Instance e) = True"

fun str_of_exception :: "base_exception \<Rightarrow> string" where
  "str_of_exception CancelledError = []"
| "str_of_exception (Instance e) = str_of_error e"

text \<open>
  What a fetch does to the outside world, in the order it happens: taking and giving back
  a slot of the semaphore, \<open>asyncio.sleep(d)\<close>, and one GET with its user agent.
\<close>

datatype io = Acquire | Release | Sleep real | Get string string

text \<open>
  The fields of \<open>AsyncBaseScraper\<close> and \<open>AsyncPropertyScraper\<close>. \<open>semaphore\<close> is the
  number of free slots of \<open>asyncio.Semaphore(max_concurrent)\<close>; \<open>trace\<close> records the
  effects of the fetches made through this object.
\<close>

record scraper =
  max_concurrent :: int
  request_delay :: real
  semaphore :: nat
  current_user_agent :: nat
  trace :: "io list"
  scraped_properties :: "property list"
  failed_urls :: "string list"

definition user_agents :: "string list" where
  "user_agents =
    [''Mozilla/5.0 (Windows NT 10.0; Win64; x64) AppleWebKit/537.36 (KHTML, like Gecko) Chrome/91.0.4472.124 Safari/537.36'',
     ''Mozilla/5.0 (Macintosh; Intel Mac OS X 10_15_7) AppleWebKit/537.36 (KHTML, like Gecko) Chrome/91.0.4472.124 Safari/537.36'',
     ''Mozilla/5.0 (X11; Linux x86_64) AppleWebKit/537.36 (KHTML, like Gecko) Chrome/91.0.4472.124 Safari/537.36'',
     ''Mozilla/5.0 (Windows NT 10.0; Win64; x64; rv:89.0) Gecko/20100101 Firefox/89.0'',
     ''Mozilla/5.0 (Macintosh; Intel Mac OS X 10.15; rv:89.0) Gecko/20100101 Firefox/89.0'']"

text \<open>
  \<open>AsyncPropertyScraper(max_concurrent, request_delay)\<close>: \<open>asyncio.Semaphore\<close> raises
  \<open>ValueError\<close> on a negative initial value.
\<close>

definition new_scraper :: "int \<Rightarrow> real \<Rightarrow> py_error + scraper" where
  "new_scraper mc delay =
     (if mc < 0 then Inl (ValueError ''Semaphore initial value must be >= 0'')
      else Inr \<lparr> max_concurrent = mc, request_delay = delay, semaphore = nat mc,
                 current_user_agent = 0, trace = [], scraped_properties = [],
                 failed_urls = [] \<rparr>)"

text \<open>
  \<open>get_user_agent\<close>: the list read raises \<open>IndexError\<close> when the cursor is out of range
  (it never is once the object is built by its constructor, see \<open>ua_ok\<close> below).
\<close>

definition get_user_agent :: "scraper \<Rightarrow> py_error + (string \<times> scraper)" where
  "get_user_agent self =
     (if current_user_agent self < length user_agents
      then Inr (user_agents ! current_user_agent self,
                self\<lparr>current_user_agent :=
                       (current_user_agent self + 1) mod length user_agents\<rparr>)
      else Inl IndexError)"

definition ua_ok :: "scraper \<Rightarrow> bool" where
  "ua_ok self = (current_user_agent self < length user_agents)"

section \<open>One fetch with retries (AsyncBaseScraper.fetch\_page)\<close>

text \<open>
  What the network does to one GET: a response with its status and with what
  \<open>response.text()\<close> gives (a body or an exception), or an exception raised by the
  request itself (\<open>asyncio.TimeoutError\<close> or any other \<open>Exception\<close>). The network is
  a parameter: it says what happens to attempt number \<open>attempt\<close> on \<open>url\<close>.
\<close>

datatype attempt_event = Response int "py_error + string" | Raises py_error

type_synonym network = "string \<Rightarrow> nat \<Rightarrow> attempt_event"

definition sleep :: "real \<Rightarrow> scraper \<Rightarrow> scraper" where
  "sleep d self = self\<lparr>trace := trace self @ [Sleep d]\<rparr>"

text \<open>
  One iteration of \<open>for attempt in range(retries)\<close>, the \<open>try\<close> with its two handlers.
  The result is \<open>Some content\<close> when the iteration returns from \<open>fetch_page\<close> and
  \<open>None\<close> when the loop goes on to the next attempt. Both handlers only log, so every
  exception raised inside the \<open>try\<close> ends the iteration and nothing more.
\<close>

definition attempt_once ::
  "network \<Rightarrow> string \<Rightarrow> nat \<Rightarrow> scraper \<Rightarrow> string option \<times> scraper" where
  "attempt_once net url attempt self =
     (let s1 = (if attempt > 0 then sleep (request_delay self * (real attempt + 1)) self
                else sleep (request_delay self) self)
      in case get_user_agent s1 of
           Inl e \<Rightarrow> (None, s1)
         | Inr (ua, s2) \<Rightarrow>
             (let s3 = s2\<lparr>trace := trace s2 @ [Get url ua]\<rparr>
              in case net url attempt of
                   Response status body \<Rightarrow>
                     (if status = 200 then
                        (case body of Inr content \<Rightarrow> (Some content, s3)
                                    | Inl e \<Rightarrow> (None, s3))
                      else if status = 429 then (None, sleep (request_delay self * 5) s3)
                      else (None, s3))
                 | Raises e \<Rightarrow> (None, s3)))"

text \<open>The loop over \<open>range(retries)\<close>, then \<open>return None\<close>.\<close>

fun fetch_loop ::
  "network \<Rightarrow> string \<Rightarrow> nat list \<Rightarrow> scraper \<Rightarrow> string option \<times> scraper" where
  "fetch_loop net url [] self = (None, self)"
| "fetch_loop net url (attempt # rest) self =
     (case attempt_once net url attempt self of
        (Some content, s) \<Rightarrow> (Some content, s)
      | (None, s) \<Rightarrow> fetch_loop net url rest s)"

definition acquire :: "scraper \<Rightarrow> scraper" where
  "acquire self = self\<lparr>semaphore := semaphore self - 1, trace := trace self @ [Acquire]\<rparr>"

definition release :: "scraper \<Rightarrow> scraper" where
  "release self = self\<lparr>semaphore := semaphore self + 1, trace := trace self @ [Release]\<rparr>"

text \<open>
  \<open>fetch_page\<close>, called while no other fetch of this object is in flight:
  \<open>async with self.semaphore\<close> around the whole loop. With no free slot the call waits
  for a release that nobody will make: it never returns, which is the value \<open>None\<close>.
  \<open>range(retries)\<close> is empty for \<open>retries \<le> 0\<close>.
\<close>

definition fetch_page ::
  "network \<Rightarrow> string \<Rightarrow> int \<Rightarrow> scraper \<Rightarrow> (string option \<times> scraper) option" where
  "fetch_page net url retries self =
     (if semaphore self = 0 then None
      else (case fetch_loop net url [0..<nat retries] (acquire self) of
              (r, s) \<Rightarrow> Some (r, release s)))"

text \<open>Reading a trace: the number of GETs, and the time slept between two GETs.\<close>

fun gets :: "io list \<Rightarrow> nat" where
  "gets [] = 0"
| "gets (Get u a # es) = Suc (gets es)"
| "gets (e # es) = gets es"

text \<open>\<open>asyncio.sleep(d)\<close> returns at once for \<open>d \<le> 0\<close>, so it lasts \<open>max 0 d\<close>.\<close>

fun slept_until_get :: "io list \<Rightarrow> real" where
  "slept_until_get [] = 0"
| "slept_until_get (Get u a # es) = 0"
| "slept_until_get (Sleep d # es) = max 0 d + slept_until_get es"
| "slept_until_get (e # es) = slept_until_get es"

text \<open>The time slept after the first GET of a trace and before the next one.\<close>

fun backoff :: "io list \<Rightarrow> real" where
  "backoff [] = 0"
| "backoff (Get u a # es) = slept_until_get es"
| "backoff (e # es) = backoff es"

section \<open>Float arithmetic\<close>

text \<open>
  Python's floats are IEEE 754 doubles: 53 bits of mantissa, exponents of the last
  mantissa bit from -1074 on, results rounded to the nearest double, ties to the even
  mantissa. A non-negative double is kept as its mantissa and the exponent of its last
  bit; its value is \<open>m * 2 ^ e\<close>.
\<close>

type_synonym double = "nat \<times> int"

definition float_value :: "double \<Rightarrow> real" where
  "float_value x = (case x of (m, e) \<Rightarrow> real m * 2 powi e)"

text \<open>\<open>int.bit_length()\<close>.\<close>

fun bit_length :: "nat \<Rightarrow> nat" where
  "bit_length n = (if n = 0 then 0 else Suc (bit_length (n div 2)))"

declare bit_length.simps [simp del]

text \<open>The integer nearest to \<open>n / d\<close>, the even one of the two when \<open>n / d\<close> is half-way.\<close>

definition round_half_even :: "nat \<Rightarrow> nat \<Rightarrow> nat" where
  "round_half_even n d =
     (let q = n div d; r = n mod d
      in if 2 * r < d then q else if d < 2 * r then q + 1 else if even q then q else q + 1)"

text \<open>
  \<open>n / d / 2 ^ e\<close> as a fraction of natural numbers, and the exponent of the leading bit
  of \<open>n / d\<close> (the integer part of its binary logarithm), found from the bit lengths.
\<close>

definition scaled :: "nat \<Rightarrow> nat \<Rightarrow> int \<Rightarrow> nat \<times> nat" where
  "scaled n d e = (if 0 \<le> e then (n, d * 2 ^ nat e) else (n * 2 ^ nat (- e), d))"

definition leading_exponent :: "nat \<Rightarrow> nat \<Rightarrow> int" where
  "leading_exponent n d =
     (let b = int (bit_length n) - int (bit_length d)
      in case scaled n d b of (N, D) \<Rightarrow> if D \<le> N then b else b - 1)"

text \<open>
  The double nearest to \<open>n / d\<close> (for \<open>d > 0\<close>), ties to even: the last mantissa bit is 52
  places below the leading bit, and not below \<open>2 ^ -1074\<close>. Overflow is tested by the
  operations that round.
\<close>

definition nearest_double :: "nat \<Rightarrow> nat \<Rightarrow> double" where
  "nearest_double n d =
     (if n = 0 then (0, 0)
      else let e = max (leading_exponent n d - 52) (- 1074)
           in case scaled n d e of (N, D) \<Rightarrow> (round_half_even N D, e))"

text \<open>
  \<open>a / b\<close> on two non-negative ints: the correctly rounded quotient; \<open>ZeroDivisionError\<close>
  on a zero divisor, \<open>OverflowError\<close> when the rounded quotient is out of the range of
  the doubles.
\<close>

definition truediv :: "nat \<Rightarrow> nat \<Rightarrow> py_error + double" where
  "truediv a b =
     (if b = 0 then Inl ZeroDivisionError
      else if 2 ^ 1024 \<le> float_value (nearest_double a b) then Inl OverflowError
      else Inr (nearest_double a b))"

text \<open>
  \<open>float(k)\<close> for a small non-negative int (the ints up to \<open>2 ^ 53\<close> are doubles), and
  \<open>x * y\<close> on two non-negative doubles: the exact product rounded, \<open>inf\<close> on overflow.
\<close>

definition float_of_nat :: "nat \<Rightarrow> double" where
  "float_of_nat k = nearest_double k 1"

definition float_mul :: "double \<Rightarrow> double \<Rightarrow> number" where
  "float_mul x y =
     (case x of (m1, e1) \<Rightarrow> case y of (m2, e2) \<Rightarrow>
        case scaled (m1 * m2) 1 (- (e1 + e2)) of (N, D) \<Rightarrow>
          if 2 ^ 1024 \<le> float_value (nearest_double N D) then PosInf
          else Finite (float_value (nearest_double N D)))"

section \<open>Session statistics (AsyncPropertyScraper.get\_scraping\_stats)\<close>

text \<open>
  The dictionary of statistics. \<open>success_rate\<close> is
  \<open>len(scraped_properties) / max(len(scraped_properties) + len(failed_urls), 1) * 100\<close>:
  an int divided by an int, and the float that comes out multiplied by the int 100.
\<close>

record scraping_stats =
  total_properties_scraped :: nat
  failed_url_count :: nat
  success_rate :: number
  stats_max_concurrent :: int
  stats_request_delay :: real

definition get_scraping_stats :: "scraper \<Rightarrow> py_error + scraping_stats" where
  "get_scraping_stats self =
     (case truediv (length (scraped_properties self))
                   (max (length (scraped_properties self) + length (failed_urls self)) 1) of
        Inl e \<Rightarrow> Inl e
      | Inr q \<Rightarrow> Inr \<lparr> total_properties_scraped = length (scraped_properties self),
                      failed_url_count = length (failed_urls self),
                      success_rate = float_mul q (float_of_nat 100),
                      stats_max_concurrent = max_concurrent self,
                      stats_request_delay = request_delay self \<rparr>)"

section \<open>Many fetches at once (AsyncBaseScraper.fetch\_multiple\_pages)\<close>

text \<open>
  \<open>asyncio.gather(*tasks, return_exceptions=True)\<close> runs one \<open>fetch_page\<close> task per URL on
  the event loop. A task is waiting for the semaphore, or inside the retry loop with the
  slot in its hand (about to make attempt number \<open>a\<close>), or done with its result, or
  ended by a \<open>CancelledError\<close>.
\<close>

datatype phase = Waiting | InLoop nat | Done "string option" | Cancelled

text \<open>
  The batch: the scraper object that all tasks share (semaphore, user-agent cursor,
  trace) and the tasks in the order of the URLs.
\<close>

record batch =
  shared :: scraper
  tasks :: "(string \<times> phase) list"

definition start_batch :: "scraper \<Rightarrow> string list \<Rightarrow> batch" where
  "start_batch self urls = \<lparr> shared = self, tasks = map (\<lambda>url. (url, Waiting)) urls \<rparr>"

text \<open>
  The event loop lets task \<open>i\<close> run until its next change of phase:
  \<^item> a waiting task enters \<open>async with self.semaphore\<close> when a slot is free, and stays
    where it is when none is;
  \<^item> a task in the loop makes its next attempt (\<open>attempt_once\<close>, on the shared object);
    on \<open>return content\<close>, or when \<open>range(retries)\<close> is used up and it returns \<open>None\<close>,
    it leaves the \<open>async with\<close> and gives the slot back;
  \<^item> a task that has ended does nothing.
  An attempt counts as one step: the only state it shares with other tasks is changed in
  \<open>get_user_agent\<close>, between two suspension points.
\<close>

definition step :: "network \<Rightarrow> int \<Rightarrow> batch \<Rightarrow> nat \<Rightarrow> batch" where
  "step net retries b i =
     (if i < length (tasks b) then
        (case tasks b ! i of
           (url, Waiting) \<Rightarrow>
             (if semaphore (shared b) = 0 then b
              else \<lparr> shared = acquire (shared b), tasks = (tasks b)[i := (url, InLoop 0)] \<rparr>)
         | (url, InLoop a) \<Rightarrow>
             (if a < nat retries then
                (case attempt_once net url a (shared b) of
                   (Some content, s) \<Rightarrow>
                     \<lparr> shared = release s, tasks = (tasks b)[i := (url, Done (Some content))] \<rparr>
                 | (None, s) \<Rightarrow>
                     \<lparr> shared = s, tasks = (tasks b)[i := (url, InLoop (Suc a))] \<rparr>)
              else \<lparr> shared = release (shared b), tasks = (tasks b)[i := (url, Done None)] \<rparr>)
         | (url, Done r) \<Rightarrow> b
         | (url, Cancelled) \<Rightarrow> b)
      else b)"

text \<open>A schedule is the list of the tasks that the event loop runs, one after the other.\<close>

definition run :: "network \<Rightarrow> int \<Rightarrow> nat list \<Rightarrow> batch \<Rightarrow> batch" where
  "run net retries schedule b = foldl (step net retries) b schedule"

text \<open>
  Task \<open>i\<close> is cancelled (\<open>Task.cancel()\<close>): \<open>CancelledError\<close> is raised in it at the
  \<open>await\<close> where it is suspended. A task waiting in \<open>acquire()\<close> ends without a slot. A
  task in the retry loop is suspended inside the \<open>try\<close>; \<open>CancelledError\<close> is not an
  \<open>Exception\<close>, so neither \<open>except\<close> clause catches it and it leaves the \<open>async with\<close>,
  which gives the slot back. A task that has ended is not affected.
\<close>

definition cancel :: "batch \<Rightarrow> nat \<Rightarrow> batch" where
  "cancel b i =
     (if i < length (tasks b) then
        (case tasks b ! i of
           (url, Waiting) \<Rightarrow> \<lparr> shared = shared b, tasks = (tasks b)[i := (url, Cancelled)] \<rparr>
         | (url, InLoop a) \<Rightarrow>
             \<lparr> shared = release (shared b), tasks = (tasks b)[i := (url, Cancelled)] \<rparr>
         | (url, Done r) \<Rightarrow> b
         | (url, Cancelled) \<Rightarrow> b)
      else b)"

text \<open>
  The task that awaits \<open>gather\<close> is cancelled: \<open>gather\<close> cancels every child, and when
  all of them have ended \<open>CancelledError\<close> is raised in the caller instead of the list
  of results.
\<close>

definition cancel_all :: "batch \<Rightarrow> batch" where
  "cancel_all b = foldl cancel b [0..<length (tasks b)]"

text \<open>
  What happens while \<open>gather\<close> is awaited: the event loop resumes a task, a task is
  cancelled, or the caller is cancelled.
\<close>

datatype event = Resume nat | Cancel nat | Cancel_gather

fun fire :: "network \<Rightarrow> int \<Rightarrow> batch \<Rightarrow> event \<Rightarrow> batch" where
  "fire net retries b (Resume i) = step net retries b i"
| "fire net retries b (Cancel i) = cancel b i"
| "fire net retries b Cancel_gather = cancel_all b"

definition run_events :: "network \<Rightarrow> int \<Rightarrow> event list \<Rightarrow> batch \<Rightarrow> batch" where
  "run_events net retries events b = foldl (fire net retries) b events"

fun holds_slot :: "string \<times> phase \<Rightarrow> bool" where
  "holds_slot (url, InLoop a) = True"
| "holds_slot (url, p) = False"

fun is_done :: "string \<times> phase \<Rightarrow> bool" where
  "is_done (url, Done r) = True"
| "is_done (url, Cancelled) = True"
| "is_done (url, p) = False"

text \<open>The fetches that are past \<open>acquire()\<close> and before \<open>release()\<close>.\<close>

definition in_flight :: "batch \<Rightarrow> nat" where
  "in_flight b = length (filter holds_slot (tasks b))"

definition finished :: "batch \<Rightarrow> bool" where
  "finished b = list_all is_done (tasks b)"

text \<open>
  What \<open>gather\<close> hands back once every task has ended: the results in the order of the
  tasks, \<open>Inl e\<close> for a task that ended with the exception \<open>e\<close>. A \<open>fetch_page\<close> task
  catches every \<open>Exception\<close> itself; it ends with an exception only when it is cancelled.
\<close>

fun task_result :: "string \<times> phase \<Rightarrow> base_exception + string option" where
  "task_result (url, Done r) = Inr r"
| "task_result (url, Cancelled) = Inl CancelledError"
| "task_result (url, p) = Inr None"

definition gathered :: "batch \<Rightarrow> (base_exception + string option) list" where
  "gathered b = map task_result (tasks b)"

text \<open>
  An element of the list \<open>pages\<close>: \<open>None\<close>, a string, or an exception object.
\<close>

datatype page = No_page | Content string | Exception_object base_exception

text \<open>
  The loop over \<open>results\<close> that fills \<open>pages\<close> and counts \<open>successful\<close>: a result that is
  an instance of \<open>Exception\<close> becomes \<open>None\<close>; any other result that is not \<open>None\<close> is
  appended as it is and counted, be it a string or an exception object that is not an
  instance of \<open>Exception\<close>; \<open>None\<close> is kept.
\<close>

fun collect_pages ::
  "(base_exception + string option) list \<Rightarrow> page list \<Rightarrow> nat \<Rightarrow> page list \<times> nat"
where
  "collect_pages [] pages successful = (pages, successful)"
| "collect_pages (Inl e # results) pages successful =
     (if is_exception e then collect_pages results (pages @ [No_page]) successful
      else collect_pages results (pages @ [Exception_object e]) (successful + 1))"
| "collect_pages (Inr (Some content) # results) pages successful =
     collect_pages results (pages @ [Content content]) (successful + 1)"
| "collect_pages (Inr None # results) pages successful =
     collect_pages results (pages @ [No_page]) successful"

text \<open>
  \<open>fetch_multiple_pages\<close> under a schedule of events: \<open>fetch_page(url)\<close> for every URL with
  the default \<open>retries = 3\<close>. \<open>await gather\<close> ends when all tasks have ended; a schedule
  that leaves a task unfinished is one on which the call has not ended (\<open>None\<close>). When
  the caller was cancelled meanwhile, \<open>await gather\<close> raises \<open>CancelledError\<close>, which
  leaves \<open>fetch_multiple_pages\<close> (\<open>Inl\<close>); otherwise the list \<open>pages\<close> is returned
  (\<open>Inr\<close>).
\<close>

definition fetch_multiple_pages ::
  "network \<Rightarrow> event list \<Rightarrow> string list \<Rightarrow> scraper
     \<Rightarrow> ((base_exception + page list) \<times> scraper) option"
where
  "fetch_multiple_pages net schedule urls self =
     (let b = run_events net 3 schedule (start_batch self urls)
      in if finished b then
           (if Cancel_gather \<in> set schedule then Some (Inl CancelledError, shared b)
            else Some (Inr (fst (collect_pages (gathered b) [] 0)), shared b))
         else None)"



section \<open>Scraping a list of URLs (AsyncPropertyScraper.scrape\_property\_urls)\<close>

text \<open>
  What one scraping session meets: the network, the schedule of the event loop,
  \<open>parse_property_page\<close> (the method that subclasses implement) and the validator applied
  to \<open>to_dict()\<close> of the parsed record. Parser and validator may return or raise, and the
  opening and the closing of the HTTP session may raise; what they raise may be an
  instance of \<open>Exception\<close> or not (a \<open>CancelledError\<close> delivered at that \<open>await\<close>).
\<close>

record world =
  net_of :: network
  schedule_of :: "event list"
  parse_property_page :: "string \<Rightarrow> page \<Rightarrow> base_exception + property option"
  validate_property :: "property \<Rightarrow> base_exception + bool"
  start_session_raises :: "base_exception option"
  close_session_raises :: "base_exception option"

text \<open>\<open>if page_content\<close>: false for \<open>None\<close> and for the empty string.\<close>

fun truthy_page :: "page \<Rightarrow> bool" where
  "truthy_page No_page = False"
| "truthy_page (Content content) = (content \<noteq> [])"
| "truthy_page (Exception_object e) = True"

text \<open>
  The loop over \<open>zip(urls, pages)\<close>, with the list \<open>properties\<close> and the attribute
  \<open>failed_urls\<close> that it appends to. A URL is appended to \<open>failed_urls\<close> in the \<open>else\<close>
  of \<open>if page_content\<close> and in the \<open>except Exception\<close>; a parser that returns \<open>None\<close> and
  a record that is not valid (which is logged) leave both lists as they are. An exception
  that is not an instance of \<open>Exception\<close> ends the loop and is raised to the caller
  (\<open>Inl\<close>), with \<open>failed_urls\<close> as it is then.
\<close>

fun scrape_loop ::
  "world \<Rightarrow> (string \<times> page) list \<Rightarrow> property list \<Rightarrow> string list
     \<Rightarrow> (base_exception + property list) \<times> string list" where
  "scrape_loop w [] properties failed = (Inr properties, failed)"
| "scrape_loop w ((url, page_content) # rest) properties failed =
     (if truthy_page page_content then
        (case parse_property_page w url page_content of
           Inl e \<Rightarrow>
             (if is_exception e then scrape_loop w rest properties (failed @ [url])
              else (Inl e, failed))
         | Inr None \<Rightarrow> scrape_loop w rest properties failed
         | Inr (Some property_data) \<Rightarrow>
             (case validate_property w property_data of
                Inl e \<Rightarrow>
                  (if is_exception e then scrape_loop w rest properties (failed @ [url])
                   else (Inl e, failed))
              | Inr is_valid \<Rightarrow>
                  (if is_valid then scrape_loop w rest (properties @ [property_data]) failed
                   else scrape_loop w rest properties failed)))
      else scrape_loop w rest properties (failed @ [url]))"

text \<open>
  \<open>scrape_property_urls\<close>: \<open>None\<close> when \<open>fetch_multiple_pages\<close> does not end; otherwise
  the list of records (\<open>Inr\<close>) or the exception that left \<open>fetch_multiple_pages\<close> or
  ended the loop (\<open>Inl\<close>), and the scraper object as the call leaves it.
  \<open>scraped_properties\<close> is extended after the loop.
\<close>

definition scrape_property_urls ::
  "world \<Rightarrow> string list \<Rightarrow> scraper \<Rightarrow> ((base_exception + property list) \<times> scraper) option"
where
  "scrape_property_urls w urls self =
     (case fetch_multiple_pages (net_of w) (schedule_of w) urls self of
        None \<Rightarrow> None
      | Some (Inl e, s) \<Rightarrow> Some (Inl e, s)
      | Some (Inr pages, s) \<Rightarrow>
          (case scrape_loop w (zip urls pages) [] (failed_urls s) of
             (Inl e, failed) \<Rightarrow> Some (Inl e, s\<lparr>failed_urls := failed\<rparr>)
           | (Inr properties, failed) \<Rightarrow>
               Some (Inr properties,
                     s\<lparr>failed_urls := failed,
                       scraped_properties := scraped_properties s @ properties\<rparr>)))"

section \<open>A search (AsyncPropertyScraper.scrape\_search\_results)\<close>

text \<open>\<open>str(i)\<close> for the page numbers.\<close>

definition digit_char :: "nat \<Rightarrow> char" where
  "digit_char d = ''0123456789'' ! d"

function str_nat :: "nat \<Rightarrow> string" where
  "str_nat n = (if n < 10 then [digit_char n] else str_nat (n div 10) @ [digit_char (n mod 10)])"
  by pat_completeness auto
termination
  by (relation "measure id") auto

declare str_nat.simps [simp del]

text \<open>
  The URLs \<open>base_url + str(i)\<close> for \<open>i\<close> in \<open>range(1, min(max_properties + 1, 51))\<close>.
\<close>

definition property_urls :: "int \<Rightarrow> string list" where
  "property_urls max_properties =
     map (\<lambda>i. ''https://example-realestate.com/property/'' @ str_nat i)
         [1..<nat (min (max_properties + 1) 51)]"

definition scrape_search_results ::
  "world \<Rightarrow> search_criteria \<Rightarrow> int \<Rightarrow> scraper
     \<Rightarrow> ((base_exception + property list) \<times> scraper) option" where
  "scrape_search_results w search_criteria max_properties self =
     (case scrape_property_urls w (property_urls max_properties) self of
        None \<Rightarrow> None
      | Some (Inl e, s) \<Rightarrow> Some (Inl e, s)
      | Some (Inr properties, s) \<Rightarrow> Some (Inr (filter_properties properties search_criteria), s))"

section \<open>Jobs (AsyncScrapingManager)\<close>

text \<open>
  One entry of the list given to \<open>run_multiple_jobs\<close>: the keys \<open>job_id\<close> and
  \<open>search_criteria\<close>, and the optional keys \<open>max_properties\<close> and \<open>max_concurrent\<close>.
\<close>

record job =
  job_id :: string
  job_criteria :: search_criteria
  job_max_properties :: "int option"
  job_max_concurrent :: "int option"

text \<open>
  The dictionaries that a job returns. \<open>completed\<close> results carry the records, their
  number and the statistics; \<open>failed\<close> results carry \<open>str(e)\<close> and have no records. The
  result that \<open>run_multiple_jobs\<close> builds for a task that raised has no \<open>job_id\<close>.
  Durations and time stamps are left out.
\<close>

datatype job_status = Completed | Failed

record job_result =
  result_job_id :: "string option"
  result_status :: job_status
  result_properties :: "property list"
  result_property_count :: nat
  result_error :: "string option"
  result_stats :: "scraping_stats option"

definition completed_result ::
  "string \<Rightarrow> property list \<Rightarrow> scraping_stats \<Rightarrow> job_result" where
  "completed_result jid props st =
     \<lparr> result_job_id = Some jid, result_status = Completed, result_properties = props,
       result_property_count = length props, result_error = None, result_stats = Some st \<rparr>"

definition failed_result :: "string option \<Rightarrow> string \<Rightarrow> job_result" where
  "failed_result jid message =
     \<lparr> result_job_id = jid, result_status = Failed, result_properties = [],
       result_property_count = 0, result_error = Some message, result_stats = None \<rparr>"

text \<open>
  The manager: the scrapers of the running jobs by job id (as they were registered) and
  the history of results.
\<close>

record manager =
  active_scrapers :: "string \<rightharpoonup> scraper"
  completed_jobs :: "job_result list"

text \<open>
  The body of the \<open>try\<close> in \<open>run_scraping_job\<close>. Its outcome is \<open>None\<close> when the job never
  gets there (the scrape does not return), \<open>Inl e\<close> when it raises \<open>e\<close>, \<open>Inr r\<close> when it
  reaches \<open>return job_result\<close>; the manager is returned as the body leaves it.
  The constructor and \<open>__aenter__\<close> (\<open>start_session\<close>) run first and may raise;
  \<open>__aexit__\<close> (\<open>close_session\<close>) runs when the body of the \<open>async with\<close> is left, by
  \<open>return\<close> or by an exception, and an exception of its own replaces either.
\<close>

definition leave_session :: "world \<Rightarrow> base_exception + 'a \<Rightarrow> base_exception + 'a" where
  "leave_session w outcome =
     (case close_session_raises w of None \<Rightarrow> outcome | Some e \<Rightarrow> Inl e)"

definition job_body ::
  "world \<Rightarrow> string \<Rightarrow> search_criteria \<Rightarrow> int \<Rightarrow> int \<Rightarrow> manager
     \<Rightarrow> ((base_exception + job_result) \<times> manager) option" where
  "job_body w jid criteria max_props max_conc mgr =
     (case new_scraper max_conc 2 of
        Inl e \<Rightarrow> Some (Inl (Instance e), mgr)
      | Inr scraper \<Rightarrow>
          (case start_session_raises w of
             Some e \<Rightarrow> Some (Inl e, mgr)
           | None \<Rightarrow>
               (let mgr1 = mgr\<lparr>active_scrapers := (active_scrapers mgr)(jid \<mapsto> scraper)\<rparr>
                in case scrape_search_results w criteria max_props scraper of
                     None \<Rightarrow> None
                   | Some (Inl e, s) \<Rightarrow> Some (leave_session w (Inl e), mgr1)
                   | Some (Inr props, s) \<Rightarrow>
                       (case get_scraping_stats s of
                          Inl e \<Rightarrow> Some (leave_session w (Inl (Instance e)), mgr1)
                        | Inr st \<Rightarrow>
                            (let job_result = completed_result jid props st;
                                 mgr2 = mgr1\<lparr>completed_jobs := completed_jobs mgr1 @ [job_result],
                                             active_scrapers := (active_scrapers mgr1)(jid := None)\<rparr>
                             in Some (leave_session w (Inr job_result), mgr2))))))"

text \<open>
  \<open>run_scraping_job\<close>: the \<open>try\<close> and its \<open>except Exception\<close>, which builds the failed
  result from \<open>str(e)\<close>, appends it to the history, removes the job from the active
  scrapers and returns it. An exception that is not an instance of \<open>Exception\<close> passes
  the \<open>except\<close> clause and is raised to the caller (\<open>Inl\<close>).
\<close>

definition run_scraping_job ::
  "world \<Rightarrow> string \<Rightarrow> search_criteria \<Rightarrow> int \<Rightarrow> int \<Rightarrow> manager
     \<Rightarrow> ((base_exception + job_result) \<times> manager) option" where
  "run_scraping_job w jid criteria max_props max_conc mgr =
     (case job_body w jid criteria max_props max_conc mgr of
        None \<Rightarrow> None
      | Some (Inr job_result, mgr') \<Rightarrow> Some (Inr job_result, mgr')
      | Some (Inl e, mgr') \<Rightarrow>
          (if is_exception e then
             (let error_result = failed_result (Some jid) (str_of_exception e)
              in Some (Inr error_result,
                       mgr'\<lparr>completed_jobs := completed_jobs mgr' @ [error_result],
                            active_scrapers := (active_scrapers mgr')(jid := None)\<rparr>))
           else Some (Inl e, mgr')))"

text \<open>
  The loop of \<open>run_multiple_jobs\<close> over what \<open>gather\<close> hands back. An element of the
  list \<open>job_results\<close> is a result dictionary (\<open>Inr\<close>) or an exception object (\<open>Inl\<close>): a
  result that is an instance of \<open>Exception\<close> becomes a failed result with \<open>str(result)\<close>,
  every other result is appended as it is.
\<close>

fun collect_jobs ::
  "(base_exception + job_result) list \<Rightarrow> (base_exception + job_result) list
     \<Rightarrow> (base_exception + job_result) list" where
  "collect_jobs [] job_results = job_results"
| "collect_jobs (Inl e # results) job_results =
     (if is_exception e
      then collect_jobs results (job_results @ [Inr (failed_result None (str_of_exception e))])
      else collect_jobs results (job_results @ [Inl e]))"
| "collect_jobs (Inr r # results) job_results = collect_jobs results (job_results @ [Inr r])"

text \<open>
  One task per job, \<open>job.get('max_properties', 100)\<close> and \<open>job.get('max_concurrent', 5)\<close>.
  Every job builds its own scraper and meets its own world, so the outcome of a task does
  not depend on the other tasks; the manager is the only object they share, and only the
  order of its history depends on the order in which the jobs end. \<open>job_task\<close> is the
  outcome of one task run on the manager as it is when \<open>run_multiple_jobs\<close> is called:
  \<open>None\<close> when it never ends, else what it returns or raises.
\<close>

definition job_task :: "manager \<Rightarrow> world \<times> job \<Rightarrow> (base_exception + job_result) option" where
  "job_task mgr wj =
     (case wj of (w, j) \<Rightarrow>
        map_option fst
          (run_scraping_job w (job_id j) (job_criteria j)
             (case job_max_properties j of None \<Rightarrow> 100 | Some n \<Rightarrow> n)
             (case job_max_concurrent j of None \<Rightarrow> 5 | Some n \<Rightarrow> n) mgr))"

text \<open>
  \<open>await gather\<close> (with \<open>return_exceptions=True\<close>) returns when every task has ended:
  \<open>None\<close> when one of them never does.
\<close>

fun gather_jobs ::
  "(base_exception + job_result) option list \<Rightarrow> (base_exception + job_result) list option"
where
  "gather_jobs [] = Some []"
| "gather_jobs (None # rest) = None"
| "gather_jobs (Some r # rest) =
     (case gather_jobs rest of None \<Rightarrow> None | Some rs \<Rightarrow> Some (r # rs))"

definition run_multiple_jobs ::
  "(world \<times> job) list \<Rightarrow> manager \<Rightarrow> (base_exception + job_result) list option" where
  "run_multiple_jobs jobs mgr =
     (case gather_jobs (map (job_task mgr) jobs) of
        None \<Rightarrow> None
      | Some results \<Rightarrow> Some (collect_jobs results []))"

section \<open>What becomes of one page\<close>





section \<open>The result of a fetch, read off the network\<close>

text \<open>
  What one attempt yields for the caller, and the first attempt of a list that yields a
  page. These do not look at the scraper object; \<open>fetch_loop\<close> computes the same result
  (lemma \<open>fetch_loop_result\<close>). \<open>page_of\<close> is the element of \<open>pages\<close> that the value
  returned by \<open>fetch_page\<close> becomes.
\<close>

fun attempt_outcome :: "attempt_event \<Rightarrow> string option" where
  "attempt_outcome (Response status (Inr content)) = (if status = 200 then Some content else None)"
| "attempt_outcome (Response status (Inl e)) = None"
| "attempt_outcome (Raises e) = None"

fun first_success :: "network \<Rightarrow> string \<Rightarrow> nat list \<Rightarrow> string option" where
  "first_success net url [] = None"
| "first_success net url (a # as) =
     (case attempt_outcome (net url a) of
        Some content \<Rightarrow> Some content
      | None \<Rightarrow> first_success net url as)"


text \<open>
  What holds of every task of a batch at every moment: a task in the loop at attempt \<open>a\<close>
  has seen the attempts before \<open>a\<close> fail, and a finished task carries the result of its
  fetch.
\<close>

fun task_inv :: "network \<Rightarrow> nat \<Rightarrow> string \<times> phase \<Rightarrow> bool" where
  "task_inv net n (url, Waiting) = True"
| "task_inv net n (url, InLoop a) =
     (first_success net url [0..<n] = first_success net url [a..<n])"
| "task_inv net n (url, Done r) = (r = first_success net url [0..<n])"
| "task_inv net n (url, Cancelled) = True"

definition batch_inv :: "network \<Rightarrow> int \<Rightarrow> nat \<Rightarrow> string list \<Rightarrow> batch \<Rightarrow> bool" where
  "batch_inv net retries k urls b =
     (semaphore (shared b) + in_flight b = k \<and> ua_ok (shared b) \<and>
      map fst (tasks b) = urls \<and> list_all (task_inv net (nat retries)) (tasks b))"

section \<open>Reading traces, and example inputs\<close>

text \<open>The events that a run has added to the trace of the scraper it started from.\<close>

definition events_since :: "scraper \<Rightarrow> scraper \<Rightarrow> io list" where
  "events_since before after = drop (length (trace before)) (trace after)"

text \<open>The argument of the sleep that opens attempt number \<open>a\<close>.\<close>

definition first_delay :: "scraper \<Rightarrow> nat \<Rightarrow> real" where
  "first_delay s a = (if a > 0 then request_delay s * (real a + 1) else request_delay s)"

text \<open>A record as the demonstration parser of the source builds it.\<close>

definition demo_property :: property where
  "demo_property = \<lparr> prop_id = Some ''async_1'', title = Some ''Async Scraped Property 1'',
     price = Some (Finite 500000), address = Some ''123 Async Street, Demo City, State'',
     bedrooms = Some 3, bathrooms = Some (Finite 2.5), square_feet = Some (Finite 1500),
     property_type = Some ''House'',
     source_url = Some ''https://example-realestate.com/property/1'',
     source_website = Some ''AsyncDemo'' \<rparr>"

text \<open>A record with a zero price, no bedroom count and an empty type.\<close>

definition bare_property :: property where
  "bare_property = \<lparr> prop_id = None, title = None, price = Some (Finite 0), address = None,
     bedrooms = None, bathrooms = None, square_feet = None, property_type = Some [],
     source_url = None, source_website = None \<rparr>"

text \<open>
  Variants of the demonstration record: one with a NaN price, one with no price, and one
  with no price and a single bedroom.
\<close>

definition nan_priced :: property where
  "nan_priced = demo_property\<lparr>price := Some NaN\<rparr>"

definition unpriced :: property where
  "unpriced = demo_property\<lparr>price := None\<rparr>"

definition unpriced_one_bedroom :: property where
  "unpriced_one_bedroom = demo_property\<lparr>price := None, bedrooms := Some 1\<rparr>"

text \<open>The criteria of the end-to-end scenario.\<close>

definition austin_criteria :: search_criteria where
  "austin_criteria = \<lparr> location = ''Austin, TX'', min_price = Some (Finite 300000),
     max_price = Some (Finite 700000), min_bedrooms = Some 2, max_bedrooms = None,
     min_bathrooms = None, max_bathrooms = None, property_types = [''house''],
     max_pages = None \<rparr>"

text \<open>\<open>AsyncPropertyScraper()\<close> with its defaults, and one with no delay between requests.\<close>

definition demo_scraper :: scraper where
  "demo_scraper = \<lparr> max_concurrent = 5, request_delay = 2, semaphore = 5,
      current_user_agent = 0, trace = [], scraped_properties = [], failed_urls = [] \<rparr>"

definition no_delay_scraper :: scraper where
  "no_delay_scraper = \<lparr> max_concurrent = 5, request_delay = 0, semaphore = 5,
      current_user_agent = 0, trace = [], scraped_properties = [], failed_urls = [] \<rparr>"

text \<open>Networks: one that fails in three different ways, one that always answers 429,
  one that always answers 500.\<close>

definition failing_net :: network where
  "failing_net url attempt =
     (if attempt = 0 then Response 500 (Inr ''oops'')
      else if attempt = 1 then Raises TimeoutError
      else Raises (Exception ''connection reset''))"

definition always_429 :: network where
  "always_429 url attempt = Response 429 (Inr ''slow down'')"

definition always_500 :: network where
  "always_500 url attempt = Response 500 (Inr ''server error'')"

text \<open>
  Two URLs, a network on which the first one answers 500 once and then 200 and the second
  one answers 200 at once, and a scraper with a single slot.
\<close>

definition two_urls :: "string list" where
  "two_urls = [''http://x/1'', ''http://x/2'']"

definition demo_net :: network where
  "demo_net url attempt =
     (if url = ''http://x/1''
      then (if attempt = 0 then Response 500 (Inr ''busy'') else Response 200 (Inr ''page one''))
      else Response 200 (Inr ''page two''))"

definition one_slot_scraper :: scraper where
  "one_slot_scraper = \<lparr> max_concurrent = 1, request_delay = 2, semaphore = 1,
      current_user_agent = 0, trace = [], scraped_properties = [], failed_urls = [] \<rparr>"





text \<open>Jobs: one that asks for two records, and one with a negative \<open>max_concurrent\<close>.\<close>

definition demo_job :: job where
  "demo_job = \<lparr> job_id = ''job-1'', job_criteria = austin_criteria,
     job_max_properties = Some 2, job_max_concurrent = Some 3 \<rparr>"

definition broken_job :: job where
  "broken_job = \<lparr> job_id = ''job-2'', job_criteria = austin_criteria,
     job_max_properties = Some 2, job_max_concurrent = Some (- 1) \<rparr>"

definition empty_manager :: manager where
  "empty_manager = \<lparr> active_scrapers = Map.empty, completed_jobs = [] \<rparr>"



section \<open>Properties of the post-filter\<close>

lemma filter_loop_filter:
  "filter_loop criteria filtered props = filtered @ filter (keeps criteria) props"
  by (induction props arbitrary: filtered) simp_all

lemma filter_properties_filter:
  "filter_properties props criteria = filter (keeps criteria) props"
  by (simp add: filter_properties_def filter_loop_filter)

lemma lower_house: "lower ''house'' = ''house''"
  by (simp add: lower_def lower_char_def)

lemma lower_House: "lower ''House'' = ''house''"
  by (simp add: lower_def lower_char_def)

lemma lower_Condo: "lower ''Condo'' = ''condo''"
  by (simp add: lower_def lower_char_def)

lemma between_bounds:
  "(\<not> x < Finite lo \<and> \<not> Finite hi < x) = (x = NaN \<or> (Finite lo \<le> x \<and> x \<le> Finite hi))"
  by (cases x) auto

text \<open>
  C8 (as the code has it). For records whose price, bedrooms and property type are all
  present and non-zero (non-empty), the filter run with minimum price 300000, maximum
  price 700000, minimum bedrooms 2, no maximum bedrooms and the type list \<open>["house"]\<close>
  returns exactly the records whose price is in [300000, 700000] or is NaN, with at
  least 2 bedrooms and a type that lowers to \<open>house\<close>, in the order of the input.
\<close>

theorem filter_properties_example_criteria:
  assumes c: "min_price criteria = Some (Finite 300000)"
             "max_price criteria = Some (Finite 700000)"
             "min_bedrooms criteria = Some 2" "max_bedrooms criteria = None"
             "property_types criteria = [''house'']"
      and p: "\<forall>p \<in> set props. truthy (price p) \<and> truthy (bedrooms p) \<and>
                truthy_str (property_type p)"
  shows "filter_properties props criteria =
           filter (\<lambda>p. (the (price p) = NaN \<or>
                         (Finite 300000 \<le> the (price p) \<and> the (price p) \<le> Finite 700000)) \<and>
                        2 \<le> the (bedrooms p) \<and> lower (the (property_type p)) = ''house'') props"
  unfolding filter_properties_filter
proof (rule filter_cong [OF refl])
  fix p assume "p \<in> set props"
  with p have t: "truthy (price p)" "truthy (bedrooms p)" "truthy_str (property_type p)"
    by auto
  from t c lower_house
  have "keeps criteria p =
          ((\<not> the (price p) < Finite 300000 \<and> \<not> Finite 700000 < the (price p)) \<and>
           2 \<le> the (bedrooms p) \<and> lower (the (property_type p)) = ''house'')"
    by (auto simp: keeps_def under_bound_def over_bound_def type_rejected_def truthy_def
                   truthy_str_def zero_number_def
             split: option.splits)
  then show "keeps criteria p =
          ((the (price p) = NaN \<or>
            (Finite 300000 \<le> the (price p) \<and> the (price p) \<le> Finite 700000)) \<and>
           2 \<le> the (bedrooms p) \<and> lower (the (property_type p)) = ''house'')"
    by (simp only: between_bounds)
qed

text \<open>
  A record with a NaN price has its three fields present and non-zero and a price that is
  not in [300000, 700000], and the filter keeps it: neither \<open>price < min_price\<close> nor
  \<open>price > max_price\<close> is true of NaN.
\<close>

theorem nan_price_is_kept:
  "truthy (price nan_priced) \<and> truthy (bedrooms nan_priced) \<and>
   truthy_str (property_type nan_priced) \<and>
   \<not> (Finite 300000 \<le> the (price nan_priced) \<and> the (price nan_priced) \<le> Finite 700000) \<and>
   filter_properties [nan_priced] austin_criteria = [nan_priced]"
  by (simp add: filter_properties_filter keeps_def under_bound_def over_bound_def
                type_rejected_def nan_priced_def demo_property_def austin_criteria_def
                truthy_def truthy_str_def zero_number_def lower_House lower_house)

theorem filter_properties_example_criteria_witness:
  "filter_properties
     [demo_property,
      demo_property\<lparr>price := Some (Finite 800000)\<rparr>,
      demo_property\<lparr>property_type := Some ''Condo''\<rparr>,
      demo_property\<lparr>bedrooms := Some 1\<rparr>,
      demo_property\<lparr>price := Some PosInf\<rparr>,
      demo_property\<lparr>price := Some (Finite 300000), bedrooms := Some 2\<rparr>]
     austin_criteria =
   [demo_property, demo_property\<lparr>price := Some (Finite 300000), bedrooms := Some 2\<rparr>]"
  using filter_properties_example_criteria [of austin_criteria
     "[demo_property,
       demo_property\<lparr>price := Some (Finite 800000)\<rparr>,
       demo_property\<lparr>property_type := Some ''Condo''\<rparr>,
       demo_property\<lparr>bedrooms := Some 1\<rparr>,
       demo_property\<lparr>price := Some PosInf\<rparr>,
       demo_property\<lparr>price := Some (Finite 300000), bedrooms := Some 2\<rparr>]"]
  by (simp add: austin_criteria_def demo_property_def truthy_def truthy_str_def
                zero_number_def lower_House lower_Condo)

section \<open>Properties of the float arithmetic\<close>

lemma bit_length_bounds:
  "0 < n \<Longrightarrow> 2 ^ (bit_length n - 1) \<le> n \<and> n < 2 ^ bit_length n"
proof (induction n rule: bit_length.induct)
  case (1 n)
  show ?case
  proof (cases "n div 2 = 0")
    case True
    with 1(2) have "n = 1" by (cases n) auto
    then show ?thesis by (simp add: bit_length.simps [of "Suc 0"] bit_length.simps [of 0])
  next
    case False
    with 1 have IH: "2 ^ (bit_length (n div 2) - 1) \<le> n div 2" "n div 2 < 2 ^ bit_length (n div 2)"
      by auto
    from False have pos: "0 < bit_length (n div 2)"
      by (simp add: bit_length.simps [of "n div 2"])
    have bl: "bit_length n = Suc (bit_length (n div 2))"
      using 1(2) by (simp add: bit_length.simps [of n])
    from pos obtain k where k: "bit_length (n div 2) = Suc k" by (cases "bit_length (n div 2)") auto
    from IH k have "2 * 2 ^ k \<le> n" "n < 2 * 2 ^ Suc k" by auto
    then show ?thesis by (simp add: bl k)
  qed
qed

lemma scaled_value:
  assumes "0 < d" and "scaled n d e = (N, D)"
  shows "0 < D \<and> real N / real D = real n / real d / 2 powi e"
  using assms
  by (auto simp: scaled_def power_int_def field_simps split: if_splits)

lemma round_half_even_error:
  assumes "0 < D"
  shows "\<bar>real (round_half_even N D) - real N / real D\<bar> \<le> 1 / 2"
proof -
  define q where "q = N div D"
  define r where "r = N mod D"
  have N: "N = q * D + r" and r: "r < D" using assms by (simp_all add: q_def r_def)
  have frac: "real N / real D = real q + real r / real D"
    using assms by (simp add: N field_simps)
  have rD: "0 \<le> real r / real D" "real r / real D < 1" using r assms by simp_all
  consider "2 * r < D" | "D < 2 * r" | "2 * r = D" by linarith
  then show ?thesis
  proof cases
    case 1
    then have "real r / real D < 1 / 2" using assms by (simp add: field_simps)
    with 1 rD show ?thesis by (simp add: round_half_even_def Let_def frac flip: q_def r_def)
  next
    case 2
    then have "1 / 2 < real r / real D" using assms by (simp add: field_simps)
    with 2 rD show ?thesis
      by (simp add: round_half_even_def Let_def frac flip: q_def r_def)
  next
    case 3
    then have "real r / real D = 1 / 2" using assms by (simp add: field_simps)
    with 3 show ?thesis
      by (simp add: round_half_even_def Let_def frac flip: q_def r_def)
  qed
qed

lemma leading_exponent_bounds:
  assumes n: "0 < n" and d: "0 < d"
  shows "2 powi leading_exponent n d \<le> real n / real d \<and>
         real n / real d < 2 powi (leading_exponent n d + 1)"
proof -
  define b where "b = int (bit_length n) - int (bit_length d)"
  obtain N D where s: "scaled n d b = (N, D)" by (cases "scaled n d b")
  from scaled_value [OF d s] have D: "0 < D" and v: "real N / real D = real n / real d / 2 powi b"
    by simp_all
  have L: "leading_exponent n d = (if D \<le> N then b else b - 1)"
    by (simp add: leading_exponent_def Let_def s flip: b_def)
  from bit_length_bounds [OF n] have n1: "2 ^ (bit_length n - 1) \<le> real n" "real n < 2 ^ bit_length n"
    by (metis of_nat_le_iff of_nat_numeral of_nat_power, metis of_nat_less_iff of_nat_numeral of_nat_power)
  from bit_length_bounds [OF d] have d1: "2 ^ (bit_length d - 1) \<le> real d" "real d < 2 ^ bit_length d"
    by (metis of_nat_le_iff of_nat_numeral of_nat_power, metis of_nat_less_iff of_nat_numeral of_nat_power)
  have bn: "0 < bit_length n" using n by (simp add: bit_length.simps [of n])
  have bd: "0 < bit_length d" using d by (simp add: bit_length.simps [of d])
  have pw: "(2::real) powi b = 2 ^ bit_length n / 2 ^ bit_length d"
    by (simp add: b_def power_int_diff)
  have pw1: "(2::real) powi (b + 1) = 2 * 2 ^ bit_length n / 2 ^ bit_length d"
    by (simp add: pw power_int_add)
  have pwm: "(2::real) powi (b - 1) = 2 ^ bit_length n / (2 * 2 ^ bit_length d)"
    by (simp add: pw power_int_diff)
  have two_n: "(2::real) ^ bit_length n = 2 * 2 ^ (bit_length n - 1)"
    using bn by (cases "bit_length n") simp_all
  have two_d: "(2::real) ^ bit_length d = 2 * 2 ^ (bit_length d - 1)"
    using bd by (cases "bit_length d") simp_all
  have rd: "0 < real d" using d by simp
  have upper: "real n / real d < 2 powi (b + 1)"
  proof -
    have "real n * 2 ^ bit_length d < 2 ^ bit_length n * (2 * 2 ^ (bit_length d - 1))"
      using n1(2) two_d by simp
    also have "\<dots> \<le> 2 ^ bit_length n * (2 * real d)"
      using d1(1) by (simp add: mult_left_mono)
    finally have "real n * 2 ^ bit_length d < 2 * 2 ^ bit_length n * real d" by simp
    then show ?thesis unfolding pw1 using rd by (simp add: field_simps)
  qed
  have lower: "2 powi (b - 1) \<le> real n / real d"
  proof -
    have "2 ^ bit_length n * real d \<le> 2 * 2 ^ (bit_length n - 1) * 2 ^ bit_length d"
      using d1(2) two_n by (simp add: mult_left_mono)
    also have "\<dots> \<le> 2 * real n * 2 ^ bit_length d"
      using n1(1) by (simp add: mult_right_mono)
    finally show ?thesis unfolding pwm using rd by (simp add: field_simps)
  qed
  have p: "0 < (2::real) powi b" by simp
  have q: "real n / real d = real N / real D * 2 powi b" using v p by (simp add: field_simps)
  show ?thesis
  proof (cases "D \<le> N")
    case True
    then have "1 \<le> real N / real D" using D by (simp add: field_simps)
    then have "1 * 2 powi b \<le> real N / real D * 2 powi b"
      using p by (intro mult_right_mono) simp_all
    then have "2 powi b \<le> real n / real d" by (simp add: q)
    with upper True L show ?thesis by simp
  next
    case False
    then have "real N / real D < 1" using D by (simp add: field_simps)
    then have "real N / real D * 2 powi b < 1 * 2 powi b"
      using p by (intro mult_strict_right_mono) simp_all
    then have "real n / real d < 2 powi b" by (simp add: q)
    with lower False L show ?thesis by simp
  qed
qed

lemma nearest_double_error:
  assumes n: "0 < n" and d: "0 < d"
      and e: "e = max (leading_exponent n d - 52) (- 1074)"
  shows "snd (nearest_double n d) = e \<and>
         \<bar>float_value (nearest_double n d) - real n / real d\<bar> \<le> 2 powi e / 2"
proof -
  obtain N D where s: "scaled n d e = (N, D)" by (cases "scaled n d e")
  from scaled_value [OF d s] have D: "0 < D" and v: "real N / real D = real n / real d / 2 powi e"
    by simp_all
  have nd: "nearest_double n d = (round_half_even N D, e)"
    using n s by (simp add: nearest_double_def Let_def flip: e)
  have p: "0 < (2::real) powi e" by simp
  have q: "real n / real d = real N / real D * 2 powi e" using v p by (simp add: field_simps)
  have "float_value (nearest_double n d) - real n / real d =
        (real (round_half_even N D) - real N / real D) * 2 powi e"
    by (simp add: nd float_value_def q left_diff_distrib)
  then have "\<bar>float_value (nearest_double n d) - real n / real d\<bar> =
        \<bar>real (round_half_even N D) - real N / real D\<bar> * 2 powi e"
    using p by (simp add: abs_mult)
  also have "\<dots> \<le> 1 / 2 * 2 powi e"
    using round_half_even_error [OF D, of N] p by (intro mult_right_mono) simp_all
  finally show ?thesis by (simp add: nd)
qed

lemma nearest_double_zero: "nearest_double 0 d = (0, 0)"
  by (simp add: nearest_double_def)

lemma leading_exponent_less:
  assumes "0 < n" and "0 < d" and "real n / real d < 2 powi k"
  shows "leading_exponent n d < k"
proof (rule ccontr)
  assume "\<not> leading_exponent n d < k"
  then have "(2::real) powi k \<le> 2 powi leading_exponent n d"
    by (intro power_int_increasing) simp_all
  with leading_exponent_bounds [OF assms(1,2)] assms(3) show False by simp
qed

lemma nearest_double_close:
  assumes d: "0 < d" and below: "real n / real d < 2 powi k" and k: "- 1021 \<le> k"
  shows "\<bar>float_value (nearest_double n d) - real n / real d\<bar> \<le> 2 powi (k - 54)"
proof (cases "n = 0")
  case True
  then show ?thesis by (simp add: nearest_double_zero float_value_def)
next
  case False
  then have n: "0 < n" by simp
  define e where "e = max (leading_exponent n d - 52) (- 1074)"
  from leading_exponent_less [OF n d below] k have "e \<le> k - 53" by (simp add: e_def)
  then have "(2::real) powi e \<le> 2 powi (k - 53)" by (intro power_int_increasing) simp_all
  moreover have "(2::real) powi (k - 53) = 2 * 2 powi (k - 54)"
    using power_int_add [of "2::real" "k - 54" 1] by simp
  ultimately have "(2::real) powi e / 2 \<le> 2 powi (k - 54)" by simp
  with nearest_double_error [OF n d e_def] show ?thesis by simp
qed

lemma power_int_neg_sum:
  "(2::real) powi (- (e1 + e2)) = 1 / (2 powi e1 * 2 powi e2)"
proof -
  have "(2::real) powi (- (e1 + e2)) = 1 / (2 powi (e1 + e2))" by (rule power_int_minus_divide)
  also have "(2::real) powi (e1 + e2) = 2 powi e1 * 2 powi e2" by (rule power_int_add) simp
  finally show ?thesis .
qed

lemma float_mul_value:
  assumes "float_value (nearest_double N D) < 2 ^ 1024"
      and "scaled (fst x * fst y) 1 (- (snd x + snd y)) = (N, D)"
  shows "float_mul x y = Finite (float_value (nearest_double N D)) \<and>
         0 < D \<and> real N / real D = float_value x * float_value y"
proof -
  obtain m1 e1 where x: "x = (m1, e1)" by (cases x)
  obtain m2 e2 where y: "y = (m2, e2)" by (cases y)
  from assms(2) have s: "scaled (m1 * m2) 1 (- (e1 + e2)) = (N, D)" by (simp add: x y)
  from scaled_value [OF _ s] have D: "0 < D"
    and v: "real N / real D = real (m1 * m2) / real 1 / 2 powi (- (e1 + e2))" by simp_all
  have "real (m1 * m2) / real 1 / 2 powi (- (e1 + e2)) =
        (real m1 * 2 powi e1) * (real m2 * 2 powi e2)"
    unfolding power_int_neg_sum by simp
  with v have "real N / real D = float_value x * float_value y"
    by (simp add: x y float_value_def)
  moreover have "float_mul x y = Finite (float_value (nearest_double N D))"
    using assms(1) s by (simp add: float_mul_def x y)
  ultimately show ?thesis using D by simp
qed

lemma hundred: "float_of_nat 100 = (7036874417766400, - 46)"
  by (simp add: float_of_nat_def nearest_double_def leading_exponent_def scaled_def
                round_half_even_def Let_def bit_length.simps)

lemma float_value_hundred: "float_value (float_of_nat 100) = 100"
  by (simp add: hundred float_value_def)

lemma float_value_nonneg: "0 \<le> float_value x"
  by (cases x) (simp add: float_value_def)

lemma quotient_close:
  assumes "a \<le> t" and "0 < t"
  shows "\<bar>float_value (nearest_double a t) - real a / real t\<bar> \<le> 1 / 2 ^ 53"
proof -
  have "real a / real t \<le> 1" using assms by simp
  then have "real a / real t < 2 powi 1" by simp
  from nearest_double_close [OF assms(2) this] show ?thesis
    by (simp add: power_int_minus)
qed

lemma below_overflow: "(128::real) < 2 ^ 1024"
proof -
  have "(2::real) ^ 7 < 2 ^ 1024" by (rule power_strict_increasing) simp_all
  then show ?thesis by simp
qed

lemma truediv_small:
  assumes "0 < t" and "float_value (nearest_double a t) < 128"
  shows "truediv a t = Inr (nearest_double a t)"
proof -
  from less_trans [OF assms(2) below_overflow]
  have "\<not> 2 ^ 1024 \<le> float_value (nearest_double a t)" by (simp only: not_le)
  with assms(1) show ?thesis unfolding truediv_def by (simp only: if_False) simp
qed

lemma float_mul_small:
  assumes "scaled (fst x * fst y) 1 (- (snd x + snd y)) = (N, D)"
      and "float_value (nearest_double N D) < 128"
  shows "float_mul x y = Finite (float_value (nearest_double N D))"
proof -
  from less_trans [OF assms(2) below_overflow]
  have "float_value (nearest_double N D) < 2 ^ 1024" .
  from float_mul_value [OF this assms(1)] show ?thesis by (rule conjunct1)
qed

lemma product_with_hundred:
  assumes "scaled (fst x * fst (float_of_nat 100)) 1 (- (snd x + snd (float_of_nat 100))) = (N, D)"
  shows "0 < D \<and> real N / real D = float_value x * 100"
proof -
  obtain m1 e1 where xx: "x = (m1, e1)" by (cases x)
  from assms have s': "scaled (m1 * 7036874417766400) 1 (- (e1 + (- 46))) = (N, D)"
    by (simp add: xx hundred)
  from scaled_value [OF _ s'] have D: "0 < D" by simp
  from scaled_value [OF _ s']
  have "real N / real D = real (m1 * 7036874417766400) / real 1 / 2 powi (- (e1 + (- 46)))"
    by simp
  also have "real (m1 * 7036874417766400) / real 1 / 2 powi (- (e1 + (- 46))) =
             (real m1 * 2 powi e1) * (real 7036874417766400 * 2 powi (- 46))"
    unfolding power_int_neg_sum by simp
  also have "\<dots> = float_value x * 100"
    by (simp add: xx float_value_def power_int_minus)
  finally show ?thesis using D by simp
qed

lemma two_step_bound:
  fixes r v q e1 e2 e3 :: real
  assumes "\<bar>r - v * 100\<bar> \<le> e1" and "\<bar>v - q\<bar> \<le> e2" and "e1 + 100 * e2 \<le> e3"
  shows "\<bar>r - 100 * q\<bar> \<le> e3"
  using assms by linarith

lemma success_rate_close:
  "\<exists>q r. truediv a (max (a + f) 1) = Inr q \<and>
         float_mul q (float_of_nat 100) = Finite r \<and> 0 \<le> r \<and>
         \<bar>r - 100 * (real a / real (max (a + f) 1))\<bar> \<le> 1 / 2 ^ 45"
proof -
  define t where "t = max (a + f) 1"
  have t: "0 < t" "a \<le> t" by (simp_all add: t_def)
  define x where "x = nearest_double a t"
  have q1: "real a / real t \<le> 1" using t by simp
  from quotient_close [OF t(2,1)] have xq: "\<bar>float_value x - real a / real t\<bar> \<le> 1 / 2 ^ 53"
    by (simp add: x_def)
  with q1 have x1: "float_value x \<le> 1 + 1 / 2 ^ 53" by linarith
  then have "float_value x < 128" by simp
  then have td: "truediv a t = Inr x" unfolding x_def by (rule truediv_small [OF t(1)])
  obtain N D where s: "scaled (fst x * fst (float_of_nat 100)) 1 (- (snd x + snd (float_of_nat 100))) = (N, D)"
    by (cases "scaled (fst x * fst (float_of_nat 100)) 1 (- (snd x + snd (float_of_nat 100)))")
  from product_with_hundred [OF s] have D: "0 < D"
    and prod_eq: "real N / real D = float_value x * 100" by simp_all
  define r where "r = float_value (nearest_double N D)"
  have p101: "float_value x * 100 < 101" using x1 by simp
  then have below: "real N / real D < 2 powi 7" by (simp add: prod_eq)
  from nearest_double_close [OF D below]
  have rp: "\<bar>r - float_value x * 100\<bar> \<le> 1 / 2 ^ 47"
    by (simp add: r_def prod_eq power_int_minus)
  have "(1::real) / 2 ^ 47 \<le> 1" by simp
  with rp p101 have "r < 128" by linarith
  then have fm: "float_mul x (float_of_nat 100) = Finite r"
    unfolding r_def by (rule float_mul_small [OF s])
  have c: "(1::real) / 2 ^ 47 + 100 * (1 / 2 ^ 53) \<le> 1 / 2 ^ 45" by simp
  from two_step_bound [OF rp xq c]
  have "\<bar>r - 100 * (real a / real t)\<bar> \<le> 1 / 2 ^ 45" .
  moreover have "0 \<le> r" by (simp add: r_def float_value_nonneg)
  ultimately show ?thesis using td fm unfolding t_def by blast
qed

lemma bit_length_7_10: "bit_length 7 = 3" "bit_length 10 = 4"
  by (simp_all add: bit_length.simps)

lemma leading_exponent_7_10: "leading_exponent 7 10 = - 1"
  by (simp add: leading_exponent_def scaled_def bit_length_7_10)

lemma nearest_double_7_10: "nearest_double 7 10 = (6305039478318694, - 53)"
  by (simp add: nearest_double_def leading_exponent_7_10 scaled_def round_half_even_def Let_def)

lemma truediv_7_10: "truediv 7 10 = Inr (6305039478318694, - 53)"
  by (simp add: truediv_def nearest_double_7_10 float_value_def power_int_minus)

lemma bit_length_product_7_10:
  "bit_length 44367771007988026237634845081600 = 106"
  "bit_length 633825300114114700748351602688 = 100"
  by (simp_all add: bit_length.simps)

lemma leading_exponent_product_7_10:
  "leading_exponent 44367771007988026237634845081600 633825300114114700748351602688 = 6"
  by (simp add: leading_exponent_def scaled_def bit_length_product_7_10)

lemma nearest_double_product_7_10:
  "nearest_double 44367771007988026237634845081600 633825300114114700748351602688 =
     (4925812092436480, - 46)"
  by (simp add: nearest_double_def leading_exponent_product_7_10 scaled_def round_half_even_def Let_def)

lemma float_mul_7_10: "float_mul (6305039478318694, - 53) (float_of_nat 100) = Finite 70"
  by (simp add: float_mul_def hundred scaled_def nearest_double_product_7_10 float_value_def power_int_minus)


lemma truediv_0_1: "truediv 0 (Suc 0) = Inr (0, 0)"
  by (simp add: truediv_def nearest_double_zero float_value_def)

lemma float_mul_0: "float_mul (0, 0) (float_of_nat 100) = Finite 0"
  by (simp add: float_mul_def hundred scaled_def nearest_double_zero float_value_def)

text \<open>29 / 100 * 100 is not 29 in doubles: it is the double just below, 28.999999999999996.\<close>

lemma bit_length_29_100: "bit_length 29 = 5" "bit_length 100 = 7"
  by (simp_all add: bit_length.simps)

lemma leading_exponent_29_100: "leading_exponent 29 100 = - 2"
  by (simp add: leading_exponent_def scaled_def bit_length_29_100)

lemma nearest_double_29_100: "nearest_double 29 100 = (5224175567749775, - 54)"
  by (simp add: nearest_double_def leading_exponent_29_100 scaled_def round_half_even_def Let_def)

lemma truediv_29_100: "truediv 29 100 = Inr (5224175567749775, - 54)"
  by (simp add: truediv_def nearest_double_29_100 float_value_def power_int_minus)

lemma bit_length_product_29_100:
  "bit_length 36761867406618650110129602560000 = 105"
  "bit_length 1267650600228229401496703205376 = 101"
  by (simp_all add: bit_length.simps)

lemma leading_exponent_product_29_100:
  "leading_exponent 36761867406618650110129602560000 1267650600228229401496703205376 = 4"
  by (simp add: leading_exponent_def scaled_def bit_length_product_29_100)

lemma nearest_double_product_29_100:
  "nearest_double 36761867406618650110129602560000 1267650600228229401496703205376 =
     (8162774324609023, - 48)"
  by (simp add: nearest_double_def leading_exponent_product_29_100 scaled_def
                round_half_even_def Let_def)

lemma float_mul_29_100:
  "float_mul (5224175567749775, - 54) (float_of_nat 100) =
     Finite (8162774324609023 / 281474976710656)"
  by (simp add: float_mul_def hundred scaled_def nearest_double_product_29_100 float_value_def
                power_int_minus)

section \<open>Properties of the statistics\<close>

lemma success_rate_29_71:
  assumes "length (scraped_properties self) = 29" and "length (failed_urls self) = 71"
  shows "\<exists>st. get_scraping_stats self = Inr st \<and>
              success_rate st = Finite (8162774324609023 / 281474976710656) \<and>
              success_rate st \<noteq> Finite 29"
  using assms by (simp add: get_scraping_stats_def truediv_29_100 float_mul_29_100)

text \<open>
  C5. \<open>get_scraping_stats\<close> never raises. Its success rate is the float that
  \<open>succeeded / max(succeeded + failed, 1) * 100\<close> evaluates to: a finite, non-negative
  number, the quotient rounded to a double and the product with 100 rounded again. As soon
  as one of the two counts is positive it is
  succeeded / (succeeded + failed) * 100 up to these two roundings, which move it by
  \<open>2 ^ -45\<close> at most; it is exactly 70 for 7 and 3, and exactly 0 when both counts are 0.
\<close>

theorem get_scraping_stats_success_rate:
  "\<exists>st q r. get_scraping_stats self = Inr st \<and>
     truediv (length (scraped_properties self))
             (max (length (scraped_properties self) + length (failed_urls self)) 1) = Inr q \<and>
     success_rate st = float_mul q (float_of_nat 100) \<and>
     success_rate st = Finite r \<and> 0 \<le> r \<and>
     (1 \<le> length (scraped_properties self) + length (failed_urls self) \<longrightarrow>
        \<bar>r - real (length (scraped_properties self)) /
              real (length (scraped_properties self) + length (failed_urls self)) * 100\<bar>
          \<le> 1 / 2 ^ 45) \<and>
     (length (scraped_properties self) = 7 \<and> length (failed_urls self) = 3 \<longrightarrow> r = 70) \<and>
     (length (scraped_properties self) = 0 \<and> length (failed_urls self) = 0 \<longrightarrow> r = 0)"
proof -
  define a where "a = length (scraped_properties self)"
  define f where "f = length (failed_urls self)"
  from success_rate_close [of a f] obtain q r where
    q: "truediv a (max (a + f) 1) = Inr q"
    and r: "float_mul q (float_of_nat 100) = Finite r" "0 \<le> r"
    and close: "\<bar>r - 100 * (real a / real (max (a + f) 1))\<bar> \<le> 1 / 2 ^ 45"
    by blast
  define st where "st = \<lparr> total_properties_scraped = a, failed_url_count = f,
     success_rate = float_mul q (float_of_nat 100),
     stats_max_concurrent = max_concurrent self, stats_request_delay = request_delay self \<rparr>"
  have st: "get_scraping_stats self = Inr st"
    using q by (simp add: get_scraping_stats_def st_def flip: a_def f_def)
  have rate: "success_rate st = float_mul q (float_of_nat 100)" by (simp add: st_def)
  have general: "\<bar>r - real a / real (a + f) * 100\<bar> \<le> 1 / 2 ^ 45" if "1 \<le> a + f"
  proof -
    from that have "max (a + f) 1 = a + f" by simp
    with close show ?thesis by (simp add: mult.commute)
  qed
  have seventy: "r = 70" if "a = 7 \<and> f = 3"
    using that q r(1) by (auto simp: truediv_7_10 float_mul_7_10)
  have zero: "r = 0" if "a = 0 \<and> f = 0"
    using that q r(1) by (auto simp: truediv_0_1 float_mul_0)
  have finite: "success_rate st = Finite r" using rate r(1) by simp
  show ?thesis
  proof (intro exI [of _ st] exI [of _ q] exI [of _ r] conjI impI)
    show "get_scraping_stats self = Inr st" by (rule st)
    show "truediv (length (scraped_properties self))
             (max (length (scraped_properties self) + length (failed_urls self)) 1) = Inr q"
      using q by (simp only: a_def f_def)
    show "success_rate st = float_mul q (float_of_nat 100)" by (rule rate)
    show "success_rate st = Finite r" by (rule finite)
    show "0 \<le> r" by (rule r(2))
    show "\<bar>r - real (length (scraped_properties self)) /
              real (length (scraped_properties self) + length (failed_urls self)) * 100\<bar>
          \<le> 1 / 2 ^ 45"
      if "1 \<le> length (scraped_properties self) + length (failed_urls self)"
      using general that by (simp only: a_def f_def)
    show "r = 70" if "length (scraped_properties self) = 7 \<and> length (failed_urls self) = 3"
      using seventy that by (simp only: a_def f_def)
    show "r = 0" if "length (scraped_properties self) = 0 \<and> length (failed_urls self) = 0"
      using zero that by (simp only: a_def f_def)
  qed
qed

theorem get_scraping_stats_success_rate_witness:
  "\<exists>st. get_scraping_stats
           (demo_scraper\<lparr>scraped_properties := replicate 7 demo_property,
                          failed_urls := replicate 3 ''u''\<rparr>) = Inr st \<and>
        success_rate st = Finite 70"
  using get_scraping_stats_success_rate
          [of "demo_scraper\<lparr>scraped_properties := replicate 7 demo_property,
                              failed_urls := replicate 3 ''u''\<rparr>"]
  by auto

section \<open>Properties of one fetch\<close>

lemma length_user_agents: "length user_agents = 5"
  by (simp add: user_agents_def)

lemma gets_append: "gets (xs @ ys) = gets xs + gets ys"
  by (induction xs rule: gets.induct) simp_all

lemma attempt_once_fails:
  assumes "ua_ok s" and "\<forall>content. net url a \<noteq> Response 200 (Inr content)"
  shows "\<exists>s'. attempt_once net url a s = (None, s') \<and> ua_ok s' \<and>
              gets (trace s') = Suc (gets (trace s)) \<and>
              semaphore s' = semaphore s \<and> request_delay s' = request_delay s"
proof (cases "net url a")
  case (Response status body)
  with assms show ?thesis
    by (cases body)
       (auto simp: attempt_once_def get_user_agent_def ua_ok_def sleep_def gets_append Let_def
             length_user_agents)
next
  case (Raises e)
  with assms show ?thesis
    by (auto simp: attempt_once_def get_user_agent_def ua_ok_def sleep_def gets_append Let_def
             length_user_agents)
qed

lemma fetch_loop_all_fail:
  assumes "ua_ok s" and "\<forall>a \<in> set as. \<forall>content. net url a \<noteq> Response 200 (Inr content)"
  shows "\<exists>s'. fetch_loop net url as s = (None, s') \<and> ua_ok s' \<and>
              gets (trace s') = gets (trace s) + length as \<and>
              semaphore s' = semaphore s"
  using assms
proof (induction as arbitrary: s)
  case Nil
  then show ?case by simp
next
  case (Cons a as)
  from Cons.prems obtain s1 where s1: "attempt_once net url a s = (None, s1)" "ua_ok s1"
      "gets (trace s1) = Suc (gets (trace s))" "semaphore s1 = semaphore s"
    using attempt_once_fails [of s net url a] by auto
  from Cons.IH [OF s1(2)] Cons.prems(2) obtain s' where
      "fetch_loop net url as s1 = (None, s')" "ua_ok s'"
      "gets (trace s') = gets (trace s1) + length as" "semaphore s' = semaphore s1"
    by auto
  with s1 show ?case by simp
qed

text \<open>
  C3. With \<open>retries = r \<ge> 1\<close>, a free slot and a network on which none of the first
  \<open>r\<close> attempts gives a 200 response with a readable body (a non-200 status, a timeout
  or any other exception), \<open>fetch_page\<close> returns \<open>None\<close> after exactly \<open>r\<close> GETs, and
  gives the slot back. The failures are inputs of the model and the result is a normal
  return: no exception leaves \<open>fetch_page\<close>.
\<close>

theorem fetch_page_exhausts_retries:
  assumes "1 \<le> r" and "0 < semaphore self" and "ua_ok self"
      and "\<forall>a < nat r. \<forall>content. net url a \<noteq> Response 200 (Inr content)"
  shows "\<exists>s'. fetch_page net url r self = Some (None, s') \<and>
              int (gets (trace s')) = int (gets (trace self)) + r \<and>
              semaphore s' = semaphore self"
proof -
  have ok: "ua_ok (acquire self)" using assms(3) by (simp add: ua_ok_def acquire_def)
  have "\<forall>a \<in> set [0..<nat r]. \<forall>content. net url a \<noteq> Response 200 (Inr content)"
    using assms(4) by simp
  with ok fetch_loop_all_fail [of "acquire self" "[0..<nat r]" net url] obtain s1 where
      s1: "fetch_loop net url [0..<nat r] (acquire self) = (None, s1)"
          "gets (trace s1) = gets (trace (acquire self)) + length [0..<nat r]"
          "semaphore s1 = semaphore (acquire self)"
    by blast
  with assms(1,2) show ?thesis
    by (simp add: fetch_page_def acquire_def release_def gets_append)
qed

theorem fetch_page_exhausts_retries_witness:
  "\<exists>s'. fetch_page failing_net ''http://x/1'' 3 demo_scraper = Some (None, s') \<and>
        gets (trace s') = 3 \<and> semaphore s' = 5"
  using fetch_page_exhausts_retries [of 3 demo_scraper failing_net "''http://x/1''"]
  by (simp add: demo_scraper_def failing_net_def ua_ok_def length_user_agents)

section \<open>Backoff after a rate limit\<close>

lemma attempt_once_429:
  assumes "ua_ok s" and "net url a = Response 429 b"
  shows "\<exists>s'. attempt_once net url a s = (None, s') \<and> ua_ok s' \<and>
           request_delay s' = request_delay s \<and>
           trace s' = trace s @ [Sleep (first_delay s a),
                                 Get url (user_agents ! current_user_agent s),
                                 Sleep (request_delay s * 5)]"
  using assms
  by (auto simp: attempt_once_def get_user_agent_def ua_ok_def sleep_def Let_def
                 length_user_agents first_delay_def)

lemma attempt_once_plain:
  assumes "ua_ok s" and "\<forall>b. net url a \<noteq> Response 429 b"
      and "\<forall>c. net url a \<noteq> Response 200 (Inr c)"
  shows "\<exists>s'. attempt_once net url a s = (None, s') \<and> ua_ok s' \<and>
           request_delay s' = request_delay s \<and>
           trace s' = trace s @ [Sleep (first_delay s a),
                                 Get url (user_agents ! current_user_agent s)]"
proof (cases "net url a")
  case (Response status body)
  with assms show ?thesis
    by (cases body)
       (auto simp: attempt_once_def get_user_agent_def ua_ok_def sleep_def Let_def
                   length_user_agents first_delay_def)
next
  case (Raises e)
  with assms show ?thesis
    by (auto simp: attempt_once_def get_user_agent_def ua_ok_def sleep_def Let_def
                   length_user_agents first_delay_def)
qed

lemma attempt_once_starts:
  assumes "ua_ok s"
  shows "\<exists>evs. trace (snd (attempt_once net url a s)) =
           trace s @ Sleep (first_delay s a) # Get url (user_agents ! current_user_agent s) # evs"
proof (cases "net url a")
  case (Response status body)
  with assms show ?thesis
    by (cases body)
       (auto simp: attempt_once_def get_user_agent_def ua_ok_def sleep_def Let_def
                   length_user_agents first_delay_def)
next
  case (Raises e)
  with assms show ?thesis
    by (auto simp: attempt_once_def get_user_agent_def ua_ok_def sleep_def Let_def
                   length_user_agents first_delay_def)
qed

lemma fetch_loop_snd_single:
  "snd (fetch_loop net url [a] s) = snd (attempt_once net url a s)"
  by (auto split: prod.splits option.splits)

lemma backoff_after_429:
  assumes "ua_ok s" and "net url a = Response 429 b"
  shows "backoff (events_since s (snd (fetch_loop net url [a, Suc a] s))) =
           max 0 (request_delay s * 5) + max 0 (request_delay s * (real a + 2))"
proof -
  from assms attempt_once_429 [of s net url a b] obtain s1 where
    s1: "attempt_once net url a s = (None, s1)" "ua_ok s1" "request_delay s1 = request_delay s"
        "trace s1 = trace s @ [Sleep (first_delay s a),
                               Get url (user_agents ! current_user_agent s),
                               Sleep (request_delay s * 5)]"
    by blast
  from s1(2) attempt_once_starts [of s1 net url "Suc a"] obtain evs where
    "trace (snd (attempt_once net url (Suc a) s1)) =
       trace s1 @ Sleep (first_delay s1 (Suc a)) # Get url (user_agents ! current_user_agent s1) # evs"
    by blast
  moreover have "snd (fetch_loop net url [a, Suc a] s) = snd (attempt_once net url (Suc a) s1)"
    using s1(1) by (auto split: prod.splits option.splits)
  ultimately show ?thesis
    using s1(3,4) by (simp add: events_since_def first_delay_def algebra_simps)
qed

lemma backoff_after_plain:
  assumes "ua_ok s" and "\<forall>b. net url a \<noteq> Response 429 b"
      and "\<forall>c. net url a \<noteq> Response 200 (Inr c)"
  shows "backoff (events_since s (snd (fetch_loop net url [a, Suc a] s))) =
           max 0 (request_delay s * (real a + 2))"
proof -
  from assms attempt_once_plain [of s net url a] obtain s1 where
    s1: "attempt_once net url a s = (None, s1)" "ua_ok s1" "request_delay s1 = request_delay s"
        "trace s1 = trace s @ [Sleep (first_delay s a),
                               Get url (user_agents ! current_user_agent s)]"
    by blast
  from s1(2) attempt_once_starts [of s1 net url "Suc a"] obtain evs where
    "trace (snd (attempt_once net url (Suc a) s1)) =
       trace s1 @ Sleep (first_delay s1 (Suc a)) # Get url (user_agents ! current_user_agent s1) # evs"
    by blast
  moreover have "snd (fetch_loop net url [a, Suc a] s) = snd (attempt_once net url (Suc a) s1)"
    using s1(1) by (auto split: prod.splits option.splits)
  ultimately show ?thesis
    using s1(3,4) by (simp add: events_since_def first_delay_def algebra_simps)
qed

lemma attempt_once_gets:
  "gets (trace (snd (attempt_once net url a s))) \<le> Suc (gets (trace s))"
  by (auto simp: attempt_once_def get_user_agent_def sleep_def Let_def gets_append
           split: sum.splits attempt_event.splits prod.splits)

lemma fetch_loop_gets:
  "gets (trace (snd (fetch_loop net url as s))) \<le> gets (trace s) + length as"
proof (induction as arbitrary: s)
  case Nil
  then show ?case by simp
next
  case (Cons a as)
  obtain r s1 where a1: "attempt_once net url a s = (r, s1)" by (cases "attempt_once net url a s")
  with attempt_once_gets [of net url a s] have le: "gets (trace s1) \<le> Suc (gets (trace s))" by simp
  show ?case
  proof (cases r)
    case None
    with a1 Cons.IH [of s1] le show ?thesis by simp
  next
    case (Some c)
    with a1 le show ?thesis by simp
  qed
qed

text \<open>
  C7. An attempt answered with HTTP 429 sleeps \<open>request_delay * 5\<close> after its GET. When
  \<open>request_delay\<close> is positive, the time slept between the GET of that attempt and the
  GET of the next one is longer, by exactly \<open>request_delay * 5\<close>, than after an attempt
  that failed in any other way. The attempt is one iteration of the loop over
  \<open>range(retries)\<close> like any other: a fetch makes at most \<open>retries\<close> GETs, and one
  that is answered 429 every time returns \<open>None\<close> after exactly \<open>retries\<close> of
  them.
\<close>

theorem rate_limit_backoff_longer:
  assumes "0 < request_delay self" and "ua_ok self"
      and "limited url a = Response 429 b"
      and "\<forall>b. plain url a \<noteq> Response 429 b"
      and "\<forall>c. plain url a \<noteq> Response 200 (Inr c)"
  shows "(\<exists>d ua. trace (snd (attempt_once limited url a self)) =
                  trace self @ [Sleep d, Get url ua, Sleep (request_delay self * 5)]) \<and>
         backoff (events_since self (snd (fetch_loop limited url [a, Suc a] self))) =
           backoff (events_since self (snd (fetch_loop plain url [a, Suc a] self)))
             + request_delay self * 5 \<and>
         backoff (events_since self (snd (fetch_loop plain url [a, Suc a] self))) <
           backoff (events_since self (snd (fetch_loop limited url [a, Suc a] self))) \<and>
         (\<forall>r. gets (trace (snd (fetch_loop limited url [0..<nat r] self)))
                 \<le> gets (trace self) + nat r) \<and>
         (\<forall>r. 0 < semaphore self \<and> (\<forall>k < nat r. \<exists>b. limited url k = Response 429 b) \<longrightarrow>
              (\<exists>s'. fetch_page limited url r self = Some (None, s') \<and>
                    gets (trace s') = gets (trace self) + nat r))"
proof (intro conjI allI impI)
  from assms(2,3) attempt_once_429 [of self limited url a b]
  show "\<exists>d ua. trace (snd (attempt_once limited url a self)) =
                  trace self @ [Sleep d, Get url ua, Sleep (request_delay self * 5)]"
    by auto
next
  have l: "backoff (events_since self (snd (fetch_loop limited url [a, Suc a] self))) =
             max 0 (request_delay self * 5) + max 0 (request_delay self * (real a + 2))"
    using assms(2,3) by (rule backoff_after_429)
  have p: "backoff (events_since self (snd (fetch_loop plain url [a, Suc a] self))) =
             max 0 (request_delay self * (real a + 2))"
    using assms(2,4,5) by (rule backoff_after_plain)
  from l p assms(1)
  show "backoff (events_since self (snd (fetch_loop limited url [a, Suc a] self))) =
           backoff (events_since self (snd (fetch_loop plain url [a, Suc a] self)))
             + request_delay self * 5"
    by simp
  from l p assms(1)
  show "backoff (events_since self (snd (fetch_loop plain url [a, Suc a] self))) <
           backoff (events_since self (snd (fetch_loop limited url [a, Suc a] self)))"
    by simp
next
  fix r
  show "gets (trace (snd (fetch_loop limited url [0..<nat r] self))) \<le> gets (trace self) + nat r"
    using fetch_loop_gets [of limited url "[0..<nat r]" self] by simp
next
  fix r
  assume h: "0 < semaphore self \<and> (\<forall>k < nat r. \<exists>b. limited url k = Response 429 b)"
  have ok: "ua_ok (acquire self)" using assms(2) by (simp add: ua_ok_def acquire_def)
  have "\<forall>k \<in> set [0..<nat r]. \<forall>content. limited url k \<noteq> Response 200 (Inr content)"
    using h by auto
  with ok fetch_loop_all_fail [of "acquire self" "[0..<nat r]" limited url] obtain s1 where
      "fetch_loop limited url [0..<nat r] (acquire self) = (None, s1)"
      "gets (trace s1) = gets (trace (acquire self)) + length [0..<nat r]"
    by blast
  with h show "\<exists>s'. fetch_page limited url r self = Some (None, s') \<and>
                    gets (trace s') = gets (trace self) + nat r"
    by (simp add: fetch_page_def acquire_def release_def gets_append)
qed

theorem rate_limit_backoff_longer_witness:
  "backoff (events_since demo_scraper
              (snd (fetch_loop always_429 ''http://x/1'' [0, Suc 0] demo_scraper))) =
   backoff (events_since demo_scraper
              (snd (fetch_loop always_500 ''http://x/1'' [0, Suc 0] demo_scraper))) + 10 \<and>
   (\<exists>s'. fetch_page always_429 ''http://x/1'' 3 demo_scraper = Some (None, s') \<and>
         gets (trace s') = 3)"
proof -
  have rd: "request_delay demo_scraper = 2" and sem: "semaphore demo_scraper = 5"
    and tr: "trace demo_scraper = []"
    by (simp_all add: demo_scraper_def)
  have h1: "0 < request_delay demo_scraper" using rd by simp
  have h2: "ua_ok demo_scraper" by (simp add: ua_ok_def demo_scraper_def length_user_agents)
  have h3: "always_429 ''http://x/1'' 0 = Response 429 (Inr ''slow down'')"
    by (simp add: always_429_def)
  have h4: "\<forall>b. always_500 ''http://x/1'' 0 \<noteq> Response 429 b"
    and h5: "\<forall>c. always_500 ''http://x/1'' 0 \<noteq> Response 200 (Inr c)"
    by (simp_all add: always_500_def)
  note T = rate_limit_backoff_longer [of demo_scraper always_429 "''http://x/1''" 0
             "Inr ''slow down''" always_500, OF h1 h2 h3 h4 h5]
  from T have
    "0 < semaphore demo_scraper \<and>
       (\<forall>k < nat 3. \<exists>b. always_429 ''http://x/1'' k = Response 429 b) \<longrightarrow>
     (\<exists>s'. fetch_page always_429 ''http://x/1'' 3 demo_scraper = Some (None, s') \<and>
           gets (trace s') = gets (trace demo_scraper) + nat 3)"
    by blast
  then have "\<exists>s'. fetch_page always_429 ''http://x/1'' 3 demo_scraper = Some (None, s') \<and>
                 gets (trace s') = 3"
    by (simp add: sem tr always_429_def)
  moreover from T have
    "backoff (events_since demo_scraper
                (snd (fetch_loop always_429 ''http://x/1'' [0, Suc 0] demo_scraper))) =
     backoff (events_since demo_scraper
                (snd (fetch_loop always_500 ''http://x/1'' [0, Suc 0] demo_scraper)))
       + request_delay demo_scraper * 5"
    by blast
  ultimately show ?thesis by (simp add: rd)
qed

text \<open>
  With \<open>request_delay = 0\<close> the penalty \<open>request_delay * 5\<close> is zero as well: the
  backoff after a 429 is not longer than after a 500.
\<close>

theorem rate_limit_backoff_not_longer_without_delay:
  "\<not> backoff (events_since no_delay_scraper
              (snd (fetch_loop always_500 ''http://x/1'' [0, Suc 0] no_delay_scraper))) <
     backoff (events_since no_delay_scraper
              (snd (fetch_loop always_429 ''http://x/1'' [0, Suc 0] no_delay_scraper)))"
proof -
  have ok: "ua_ok no_delay_scraper"
    by (simp add: ua_ok_def no_delay_scraper_def length_user_agents)
  have "backoff (events_since no_delay_scraper
              (snd (fetch_loop always_429 ''http://x/1'' [0, Suc 0] no_delay_scraper))) = 0"
    using backoff_after_429 [of no_delay_scraper always_429 "''http://x/1''" 0 "Inr ''slow down''"] ok
    by (simp add: always_429_def no_delay_scraper_def)
  moreover have "backoff (events_since no_delay_scraper
              (snd (fetch_loop always_500 ''http://x/1'' [0, Suc 0] no_delay_scraper))) = 0"
    using backoff_after_plain [of no_delay_scraper always_500 "''http://x/1''" 0] ok
    by (simp add: always_500_def no_delay_scraper_def)
  ultimately show ?thesis by simp
qed

section \<open>Falsy values in the post-filter\<close>

lemma falsy_bound_skips:
  "\<not> truthy b \<Longrightarrow> \<not> under_bound b v \<and> \<not> over_bound b v"
  by (simp add: under_bound_def over_bound_def truthy_def split: option.splits)

lemma falsy_value_skips:
  "\<not> truthy v \<Longrightarrow> \<not> under_bound b v \<and> \<not> over_bound b v"
  by (simp add: under_bound_def over_bound_def truthy_def split: option.splits)

lemma keeps_iff:
  "keeps c p \<longleftrightarrow>
     (truthy (min_price c) \<and> truthy (price p) \<longrightarrow> \<not> the (price p) < the (min_price c)) \<and>
     (truthy (max_price c) \<and> truthy (price p) \<longrightarrow> \<not> the (max_price c) < the (price p)) \<and>
     (truthy (min_bedrooms c) \<and> truthy (bedrooms p) \<longrightarrow>
        \<not> the (bedrooms p) < the (min_bedrooms c)) \<and>
     (truthy (max_bedrooms c) \<and> truthy (bedrooms p) \<longrightarrow>
        \<not> the (max_bedrooms c) < the (bedrooms p)) \<and>
     (property_types c \<noteq> [] \<and> truthy_str (property_type p) \<longrightarrow>
        lower (the (property_type p)) \<in> set (map lower (property_types c)))"
  by (auto simp: keeps_def under_bound_def over_bound_def type_rejected_def truthy_def
                 truthy_str_def
           split: option.splits)

text \<open>
  C10 (as the code has it). Every test of the filter is skipped when one of its two sides
  is falsy. A record with no price or price 0 passes both price tests whatever the bounds
  are, one with no bedroom count or 0 bedrooms passes both bedroom tests, one with no type
  or an empty type passes the type list. A bound that is \<open>None\<close> or 0 rejects nothing, nor
  does an empty type list; criteria with nothing but such bounds keep the whole input.
  A record is kept exactly when every test that is not skipped passes, so a falsy field
  frees the record from the tests of that field only; a record whose three fields are all
  falsy is kept under every criteria.
\<close>

theorem filter_skips_falsy:
  "(\<not> truthy (price p) \<longrightarrow>
      \<not> under_bound (min_price c) (price p) \<and> \<not> over_bound (max_price c) (price p) \<and>
      keeps (c\<lparr>min_price := lo, max_price := hi\<rparr>) p = keeps c p) \<and>
   (\<not> truthy (bedrooms p) \<longrightarrow>
      \<not> under_bound (min_bedrooms c) (bedrooms p) \<and> \<not> over_bound (max_bedrooms c) (bedrooms p) \<and>
      keeps (c\<lparr>min_bedrooms := lo', max_bedrooms := hi'\<rparr>) p = keeps c p) \<and>
   (\<not> truthy_str (property_type p) \<longrightarrow>
      \<not> type_rejected (property_types c) (property_type p) \<and>
      keeps (c\<lparr>property_types := ts\<rparr>) p = keeps c p) \<and>
   (\<not> truthy (min_price c) \<longrightarrow> \<not> under_bound (min_price c) (price p)) \<and>
   (\<not> truthy (max_price c) \<longrightarrow> \<not> over_bound (max_price c) (price p)) \<and>
   (\<not> truthy (min_bedrooms c) \<longrightarrow> \<not> under_bound (min_bedrooms c) (bedrooms p)) \<and>
   (\<not> truthy (max_bedrooms c) \<longrightarrow> \<not> over_bound (max_bedrooms c) (bedrooms p)) \<and>
   (property_types c = [] \<longrightarrow> \<not> type_rejected (property_types c) (property_type p)) \<and>
   (\<not> truthy (min_price c) \<and> \<not> truthy (max_price c) \<and> \<not> truthy (min_bedrooms c) \<and>
    \<not> truthy (max_bedrooms c) \<and> property_types c = [] \<longrightarrow> filter_properties ps c = ps) \<and>
   (p \<in> set (filter_properties ps c) \<longleftrightarrow>
      p \<in> set ps \<and>
      (truthy (min_price c) \<and> truthy (price p) \<longrightarrow> \<not> the (price p) < the (min_price c)) \<and>
      (truthy (max_price c) \<and> truthy (price p) \<longrightarrow> \<not> the (max_price c) < the (price p)) \<and>
      (truthy (min_bedrooms c) \<and> truthy (bedrooms p) \<longrightarrow>
         \<not> the (bedrooms p) < the (min_bedrooms c)) \<and>
      (truthy (max_bedrooms c) \<and> truthy (bedrooms p) \<longrightarrow>
         \<not> the (max_bedrooms c) < the (bedrooms p)) \<and>
      (property_types c \<noteq> [] \<and> truthy_str (property_type p) \<longrightarrow>
         lower (the (property_type p)) \<in> set (map lower (property_types c)))) \<and>
   (\<not> truthy (price p) \<and> \<not> truthy (bedrooms p) \<and> \<not> truthy_str (property_type p) \<longrightarrow>
      keeps c p \<and> (p \<in> set ps \<longrightarrow> p \<in> set (filter_properties ps c)))"
proof -
  have price_skip: "\<not> under_bound b (price p) \<and> \<not> over_bound b (price p)" if "\<not> truthy (price p)"
    for b
    using that by (simp add: under_bound_def over_bound_def truthy_def split: option.splits)
  have bed_skip: "\<not> under_bound b (bedrooms p) \<and> \<not> over_bound b (bedrooms p)"
    if "\<not> truthy (bedrooms p)" for b
    using that by (simp add: under_bound_def over_bound_def truthy_def split: option.splits)
  have type_skip: "\<not> type_rejected ts' (property_type p)"
    if "\<not> truthy_str (property_type p)" for ts'
    using that by (simp add: type_rejected_def truthy_str_def split: option.splits)
  have no_types: "\<not> type_rejected [] t" for t
    by (simp add: type_rejected_def split: option.splits)
  have unconstrained: "filter_properties ps c = ps"
    if "\<not> truthy (min_price c)" "\<not> truthy (max_price c)" "\<not> truthy (min_bedrooms c)"
       "\<not> truthy (max_bedrooms c)" "property_types c = []"
  proof -
    have "keeps c q" for q :: "'a property_scheme"
      using that no_types by (simp add: keeps_def falsy_bound_skips)
    then show ?thesis by (simp add: filter_properties_filter)
  qed
  have all_falsy: "keeps c p"
    if "\<not> truthy (price p)" "\<not> truthy (bedrooms p)" "\<not> truthy_str (property_type p)"
    using that price_skip bed_skip type_skip by (simp add: keeps_def)
  have member: "p \<in> set (filter_properties ps c) \<longleftrightarrow> p \<in> set ps \<and> keeps c p"
    by (simp add: filter_properties_filter)
  show ?thesis
  proof (intro conjI impI)
    show "keeps (c\<lparr>min_price := lo, max_price := hi\<rparr>) p = keeps c p" if "\<not> truthy (price p)"
      using price_skip [OF that] by (simp add: keeps_def)
    show "keeps (c\<lparr>min_bedrooms := lo', max_bedrooms := hi'\<rparr>) p = keeps c p"
      if "\<not> truthy (bedrooms p)"
      using bed_skip [OF that] by (simp add: keeps_def)
    show "keeps (c\<lparr>property_types := ts\<rparr>) p = keeps c p"
      if "\<not> truthy_str (property_type p)"
      using type_skip [OF that] by (simp add: keeps_def)
    show "filter_properties ps c = ps"
      if "\<not> truthy (min_price c) \<and> \<not> truthy (max_price c) \<and> \<not> truthy (min_bedrooms c) \<and>
          \<not> truthy (max_bedrooms c) \<and> property_types c = []"
      using that unconstrained by blast
    show "p \<in> set (filter_properties ps c)"
      if "\<not> truthy (price p) \<and> \<not> truthy (bedrooms p) \<and> \<not> truthy_str (property_type p)"
         "p \<in> set ps"
      using that all_falsy by (simp add: filter_properties_filter)
    show "p \<in> set (filter_properties ps c) \<longleftrightarrow>
      p \<in> set ps \<and>
      (truthy (min_price c) \<and> truthy (price p) \<longrightarrow> \<not> the (price p) < the (min_price c)) \<and>
      (truthy (max_price c) \<and> truthy (price p) \<longrightarrow> \<not> the (max_price c) < the (price p)) \<and>
      (truthy (min_bedrooms c) \<and> truthy (bedrooms p) \<longrightarrow>
         \<not> the (bedrooms p) < the (min_bedrooms c)) \<and>
      (truthy (max_bedrooms c) \<and> truthy (bedrooms p) \<longrightarrow>
         \<not> the (max_bedrooms c) < the (bedrooms p)) \<and>
      (property_types c \<noteq> [] \<and> truthy_str (property_type p) \<longrightarrow>
         lower (the (property_type p)) \<in> set (map lower (property_types c)))"
      unfolding member by (subst keeps_iff) (rule refl)
  qed (use price_skip bed_skip type_skip no_types all_falsy in \<open>simp_all add: falsy_bound_skips\<close>)
qed

text \<open>
  A record with a falsy field is not always included: with no price and one bedroom it
  passes both price tests and is dropped by the test against \<open>min_bedrooms = 2\<close>.
\<close>

theorem falsy_price_record_excluded:
  "\<not> truthy (price unpriced_one_bedroom) \<and>
   \<not> under_bound (min_price austin_criteria) (price unpriced_one_bedroom) \<and>
   \<not> over_bound (max_price austin_criteria) (price unpriced_one_bedroom) \<and>
   filter_properties [unpriced_one_bedroom] austin_criteria = []"
  by (simp add: filter_properties_filter keeps_def under_bound_def over_bound_def
                type_rejected_def unpriced_one_bedroom_def demo_property_def
                austin_criteria_def truthy_def)

lemma bare_property_falsy:
  "\<not> truthy (price bare_property) \<and> \<not> truthy (bedrooms bare_property) \<and>
   \<not> truthy_str (property_type bare_property)"
  by (simp add: bare_property_def truthy_def truthy_str_def zero_number_def)

lemma unpriced_fields:
  "\<not> truthy (price unpriced)" "truthy (bedrooms unpriced)" "the (bedrooms unpriced) = 3"
  "truthy_str (property_type unpriced)" "lower (the (property_type unpriced)) = ''house''"
  by (simp_all add: unpriced_def demo_property_def truthy_def truthy_str_def lower_House)

lemma austin_criteria_fields:
  "truthy (min_bedrooms austin_criteria)" "the (min_bedrooms austin_criteria) = 2"
  "\<not> truthy (max_bedrooms austin_criteria)" "property_types austin_criteria = [''house'']"
  by (simp_all add: austin_criteria_def truthy_def)

theorem filter_skips_falsy_witness:
  "bare_property \<in> set (filter_properties [demo_property, bare_property] austin_criteria) \<and>
   unpriced \<in> set (filter_properties [unpriced, bare_property] austin_criteria) \<and>
   \<not> over_bound (max_bedrooms austin_criteria) (bedrooms demo_property)"
proof -
  note T1 = filter_skips_falsy [of bare_property austin_criteria _ _ _ _ _
              "[demo_property, bare_property]"]
  note T2 = filter_skips_falsy [of unpriced austin_criteria _ _ _ _ _ "[unpriced, bare_property]"]
  note T3 = filter_skips_falsy [of demo_property austin_criteria]
  have "bare_property \<in> set (filter_properties [demo_property, bare_property] austin_criteria)"
    using T1 bare_property_falsy by simp
  moreover have "unpriced \<in> set (filter_properties [unpriced, bare_property] austin_criteria)"
    using T2 unpriced_fields austin_criteria_fields by (simp add: lower_house)
  moreover have "\<not> over_bound (max_bedrooms austin_criteria) (bedrooms demo_property)"
    using T3 austin_criteria_fields by blast
  ultimately show ?thesis by blast
qed

section \<open>Properties of a batch of fetches\<close>

subsection \<open>What one step does\<close>

lemma step_cases [case_names idle acquire success retry exhausted]:
  obtains
    (idle) "step net retries b i = b"
           "i < length (tasks b) \<Longrightarrow> (\<exists>u r. tasks b ! i = (u, Done r)) \<or>
              (\<exists>u. tasks b ! i = (u, Cancelled)) \<or>
              (\<exists>u. tasks b ! i = (u, Waiting)) \<and> semaphore (shared b) = 0"
  | (acquire) u where "i < length (tasks b)" "tasks b ! i = (u, Waiting)"
      "0 < semaphore (shared b)"
      "step net retries b i =
         \<lparr> shared = acquire (shared b), tasks = (tasks b)[i := (u, InLoop 0)] \<rparr>"
  | (success) u a content s where "i < length (tasks b)" "tasks b ! i = (u, InLoop a)"
      "a < nat retries" "attempt_once net u a (shared b) = (Some content, s)"
      "step net retries b i =
         \<lparr> shared = release s, tasks = (tasks b)[i := (u, Done (Some content))] \<rparr>"
  | (retry) u a s where "i < length (tasks b)" "tasks b ! i = (u, InLoop a)"
      "a < nat retries" "attempt_once net u a (shared b) = (None, s)"
      "step net retries b i = \<lparr> shared = s, tasks = (tasks b)[i := (u, InLoop (Suc a))] \<rparr>"
  | (exhausted) u a where "i < length (tasks b)" "tasks b ! i = (u, InLoop a)"
      "\<not> a < nat retries"
      "step net retries b i =
         \<lparr> shared = release (shared b), tasks = (tasks b)[i := (u, Done None)] \<rparr>"
proof (cases "i < length (tasks b)")
  case False
  then have "step net retries b i = b" by (simp add: step_def)
  with False idle show ?thesis by simp
next
  case True
  obtain u p where up: "tasks b ! i = (u, p)" by (cases "tasks b ! i")
  show ?thesis
  proof (cases p)
    case Waiting
    show ?thesis
    proof (cases "semaphore (shared b) = 0")
      case True
      with \<open>i < length (tasks b)\<close> up Waiting idle show ?thesis by (simp add: step_def)
    next
      case False
      with \<open>i < length (tasks b)\<close> up Waiting acquire [of u] show ?thesis
        by (simp add: step_def)
    qed
  next
    case (InLoop a)
    show ?thesis
    proof (cases "a < nat retries")
      case False
      with True up InLoop exhausted [of u a] show ?thesis by (simp add: step_def)
    next
      case lt: True
      obtain r s where rs: "attempt_once net u a (shared b) = (r, s)"
        by (cases "attempt_once net u a (shared b)")
      show ?thesis
      proof (cases r)
        case None
        with True up InLoop lt rs retry [of u a s] show ?thesis by (simp add: step_def)
      next
        case (Some content)
        with True up InLoop lt rs success [of u a content s] show ?thesis
          by (simp add: step_def)
      qed
    qed
  next
    case (Done r)
    with True up idle show ?thesis by (simp add: step_def)
  next
    case Cancelled
    with True up idle show ?thesis by (simp add: step_def)
  qed
qed

subsection \<open>Counting over an updated list\<close>

lemma filter_length_update:
  "i < length xs \<Longrightarrow>
   length (filter P (xs[i := x])) + (if P (xs ! i) then 1 else 0) =
   length (filter P xs) + (if P x then 1 else 0)"
proof (induction xs arbitrary: i)
  case Nil
  then show ?case by simp
next
  case (Cons y ys)
  then show ?case by (cases i) auto
qed

lemma list_all_update:
  "list_all P xs \<Longrightarrow> P x \<Longrightarrow> list_all P (xs[i := x])"
  by (induction xs arbitrary: i) (auto split: nat.splits)

lemma map_fst_update:
  "i < length xs \<Longrightarrow> fst (xs ! i) = u \<Longrightarrow> map fst (xs[i := (u, p)]) = map fst xs"
  by (induction xs arbitrary: i) (auto split: nat.splits)


subsection \<open>One attempt\<close>

lemma attempt_once_shared:
  "semaphore (snd (attempt_once net url a s)) = semaphore s \<and>
   (ua_ok s \<longrightarrow> ua_ok (snd (attempt_once net url a s)))"
  by (auto simp: attempt_once_def get_user_agent_def ua_ok_def sleep_def Let_def
                 length_user_agents
           split: sum.splits attempt_event.splits prod.splits)

lemma attempt_once_outcome:
  "ua_ok s \<Longrightarrow> fst (attempt_once net url a s) = attempt_outcome (net url a)"
  by (cases "net url a")
     (auto simp: attempt_once_def get_user_agent_def ua_ok_def sleep_def Let_def
           split: sum.splits)


subsection \<open>The invariant of a batch\<close>

lemma in_flight_update:
  assumes "i < length (tasks b)"
  shows "in_flight \<lparr> shared = s, tasks = (tasks b)[i := t] \<rparr>
           + (if holds_slot (tasks b ! i) then 1 else 0)
         = in_flight b + (if holds_slot t then 1 else 0)"
  using filter_length_update [OF assms, of holds_slot t] by (simp add: in_flight_def)

lemma batch_inv_start:
  "ua_ok self \<Longrightarrow> batch_inv net retries (semaphore self) urls (start_batch self urls)"
  by (simp add: batch_inv_def start_batch_def in_flight_def list_all_iff comp_def)

lemma task_inv_nth:
  "batch_inv net retries k urls b \<Longrightarrow> i < length (tasks b) \<Longrightarrow>
     task_inv net (nat retries) (tasks b ! i)"
  by (simp add: batch_inv_def list_all_length)

lemma batch_inv_update:
  assumes inv: "batch_inv net retries k urls b" and i: "i < length (tasks b)"
      and u: "fst (tasks b ! i) = u"
      and sem: "semaphore s + (if holds_slot (u, p) then 1 else 0) =
                semaphore (shared b) + (if holds_slot (tasks b ! i) then 1 else 0)"
      and ok: "ua_ok s" and t: "task_inv net (nat retries) (u, p)"
  shows "batch_inv net retries k urls \<lparr> shared = s, tasks = (tasks b)[i := (u, p)] \<rparr>"
proof -
  from in_flight_update [OF i, of s "(u, p)"] sem inv
  have "semaphore s + in_flight \<lparr> shared = s, tasks = (tasks b)[i := (u, p)] \<rparr> = k"
    by (simp add: batch_inv_def split: if_splits)
  moreover from inv i u have "map fst ((tasks b)[i := (u, p)]) = urls"
    by (simp add: batch_inv_def map_fst_update)
  moreover from inv t have "list_all (task_inv net (nat retries)) ((tasks b)[i := (u, p)])"
    by (simp add: batch_inv_def list_all_update)
  ultimately show ?thesis using ok by (simp add: batch_inv_def)
qed

lemma batch_inv_step:
  assumes inv: "batch_inv net retries k urls b"
  shows "batch_inv net retries k urls (step net retries b i)"
proof (cases rule: step_cases [of net retries b i])
  case idle
  with inv show ?thesis by simp
next
  case (acquire u)
  from inv have "ua_ok (acquire (shared b))" by (simp add: batch_inv_def ua_ok_def acquire_def)
  with batch_inv_update [OF inv acquire(1), of u "acquire (shared b)" "InLoop 0"] acquire
  show ?thesis by (simp add: acquire_def)
next
  case (success u a content s)
  from inv have ok: "ua_ok (shared b)" by (simp add: batch_inv_def)
  from success(4) attempt_once_shared [of net u a "shared b"] ok
  have s: "semaphore s = semaphore (shared b)" "ua_ok s" by simp_all
  from success(4) attempt_once_outcome [OF ok, of net u a]
  have out: "attempt_outcome (net u a) = Some content" by simp
  from task_inv_nth [OF inv success(1)] success(2)
  have "first_success net u [0..<nat retries] = first_success net u [a..<nat retries]" by simp
  with success(3) out have t: "task_inv net (nat retries) (u, Done (Some content))"
    by (simp add: upt_conv_Cons)
  from s(2) have "ua_ok (release s)" by (simp add: ua_ok_def release_def)
  with batch_inv_update [OF inv success(1), of u "release s" "Done (Some content)"] success s t
  show ?thesis by (simp add: release_def)
next
  case (retry u a s)
  from inv have ok: "ua_ok (shared b)" by (simp add: batch_inv_def)
  from retry(4) attempt_once_shared [of net u a "shared b"] ok
  have s: "semaphore s = semaphore (shared b)" "ua_ok s" by simp_all
  from retry(4) attempt_once_outcome [OF ok, of net u a]
  have out: "attempt_outcome (net u a) = None" by simp
  from task_inv_nth [OF inv retry(1)] retry(2)
  have "first_success net u [0..<nat retries] = first_success net u [a..<nat retries]" by simp
  with retry(3) out have t: "task_inv net (nat retries) (u, InLoop (Suc a))"
    by (simp add: upt_conv_Cons)
  with batch_inv_update [OF inv retry(1), of u s "InLoop (Suc a)"] retry s
  show ?thesis by simp
next
  case (exhausted u a)
  from inv have ok: "ua_ok (release (shared b))"
    by (simp add: batch_inv_def ua_ok_def release_def)
  from task_inv_nth [OF inv exhausted(1)] exhausted(2)
  have "first_success net u [0..<nat retries] = first_success net u [a..<nat retries]" by simp
  with exhausted(3) have t: "task_inv net (nat retries) (u, Done None)" by simp
  with batch_inv_update [OF inv exhausted(1), of u "release (shared b)" "Done None"]
       exhausted ok
  show ?thesis by (simp add: release_def)
qed

lemma batch_inv_run:
  "batch_inv net retries k urls b \<Longrightarrow> batch_inv net retries k urls (run net retries sched b)"
  unfolding run_def
  by (induction sched arbitrary: b) (simp_all add: batch_inv_step)

subsection \<open>The semaphore under one step\<close>

lemma step_blocked:
  assumes "i < length (tasks b)" and "snd (tasks b ! i) = Waiting"
      and "semaphore (shared b) = 0"
  shows "step net retries b i = b"
  using assms by (cases "tasks b ! i") (simp add: step_def)

lemma step_release_only_on_done:
  assumes "semaphore (shared b) < semaphore (shared (step net retries b i))"
  shows "i < length (tasks b) \<and> holds_slot (tasks b ! i) \<and>
         is_done (tasks (step net retries b i) ! i)"
proof (cases rule: step_cases [of net retries b i])
  case idle
  with assms show ?thesis by simp
next
  case (acquire u)
  with assms show ?thesis by (simp add: acquire_def)
next
  case (success u a content s)
  then show ?thesis by simp
next
  case (retry u a s)
  with assms attempt_once_shared [of net u a "shared b"] show ?thesis by simp
next
  case (exhausted u a)
  then show ?thesis by simp
qed

lemma step_keeps_slot_in_loop:
  assumes "i < length (tasks b)" and "holds_slot (tasks b ! i)"
      and "holds_slot (tasks (step net retries b i) ! i)"
  shows "semaphore (shared (step net retries b i)) = semaphore (shared b)"
proof (cases rule: step_cases [of net retries b i])
  case idle
  then show ?thesis by simp
next
  case (acquire u)
  with assms show ?thesis by simp
next
  case (success u a content s)
  with assms show ?thesis by simp
next
  case (retry u a s)
  with attempt_once_shared [of net u a "shared b"] show ?thesis by simp
next
  case (exhausted u a)
  with assms show ?thesis by simp
qed

subsection \<open>Every batch can finish\<close>






subsection \<open>The bound on concurrent fetches\<close>

text \<open>
  C2. A batch started on a scraper whose semaphore has all its \<open>max_concurrent\<close> slots
  free, at any moment of any schedule: the number of fetches between \<open>acquire()\<close> and
  \<open>release()\<close> is at most \<open>max_concurrent\<close>, and together with the free slots it is
  exactly \<open>max_concurrent\<close>; when that many are in flight, a waiting task that is run
  stays where it is; the semaphore grows only by the step that takes a task out of the
  retry loop to its result, and a task that stays in the loop leaves the semaphore as it
  is: the slot is held from the first attempt to the last.
\<close>

theorem semaphore_bounds_in_flight:
  assumes "ua_ok self" and "semaphore self = nat (max_concurrent self)"
      and "b = run net retries sched (start_batch self urls)"
  shows "in_flight b \<le> nat (max_concurrent self) \<and>
         semaphore (shared b) + in_flight b = nat (max_concurrent self) \<and>
         (\<forall>i. i < length (tasks b) \<and> snd (tasks b ! i) = Waiting \<and>
              in_flight b = nat (max_concurrent self) \<longrightarrow> step net retries b i = b) \<and>
         (\<forall>i. semaphore (shared b) < semaphore (shared (step net retries b i)) \<longrightarrow>
              holds_slot (tasks b ! i) \<and> is_done (tasks (step net retries b i) ! i)) \<and>
         (\<forall>i. i < length (tasks b) \<and> holds_slot (tasks b ! i) \<and>
              holds_slot (tasks (step net retries b i) ! i) \<longrightarrow>
              semaphore (shared (step net retries b i)) = semaphore (shared b))"
proof -
  from batch_inv_run [OF batch_inv_start [OF assms(1)]] assms(2,3)
  have inv: "batch_inv net retries (nat (max_concurrent self)) urls b" by simp
  then have sum: "semaphore (shared b) + in_flight b = nat (max_concurrent self)"
    by (simp add: batch_inv_def)
  show ?thesis
  proof (intro conjI allI impI)
    from sum show "in_flight b \<le> nat (max_concurrent self)" by simp
    from sum show "semaphore (shared b) + in_flight b = nat (max_concurrent self)" .
  next
    fix i
    assume "i < length (tasks b) \<and> snd (tasks b ! i) = Waiting \<and>
            in_flight b = nat (max_concurrent self)"
    with sum step_blocked [of i b net retries] show "step net retries b i = b" by simp
  next
    fix i
    assume "semaphore (shared b) < semaphore (shared (step net retries b i))"
    from step_release_only_on_done [OF this]
    show "holds_slot (tasks b ! i)" and "is_done (tasks (step net retries b i) ! i)"
      by simp_all
  next
    fix i
    assume "i < length (tasks b) \<and> holds_slot (tasks b ! i) \<and>
            holds_slot (tasks (step net retries b i) ! i)"
    then show "semaphore (shared (step net retries b i)) = semaphore (shared b)"
      using step_keeps_slot_in_loop by blast
  qed
qed

lemma run_Cons: "run net retries (i # sched) b = run net retries sched (step net retries b i)"
  by (simp add: run_def)

lemma run_Nil: "run net retries [] b = b"
  by (simp add: run_def)

lemma one_slot_blocked_state:
  "run demo_net 3 [Suc 0, 0] (start_batch one_slot_scraper two_urls) =
     \<lparr> shared = acquire one_slot_scraper,
       tasks = [(''http://x/1'', Waiting), (''http://x/2'', InLoop 0)] \<rparr>"
  by (simp add: run_Cons run_Nil step_def start_batch_def two_urls_def one_slot_scraper_def
                acquire_def)

theorem semaphore_bounds_in_flight_witness:
  "in_flight (run demo_net 3 [Suc 0, 0] (start_batch one_slot_scraper two_urls)) = 1 \<and>
   step demo_net 3 (run demo_net 3 [Suc 0, 0] (start_batch one_slot_scraper two_urls)) 0 =
     run demo_net 3 [Suc 0, 0] (start_batch one_slot_scraper two_urls)"
proof -
  have ok: "ua_ok one_slot_scraper"
    by (simp add: ua_ok_def one_slot_scraper_def length_user_agents)
  have sem: "semaphore one_slot_scraper = nat (max_concurrent one_slot_scraper)"
    by (simp add: one_slot_scraper_def)
  have fl: "in_flight (run demo_net 3 [Suc 0, 0] (start_batch one_slot_scraper two_urls)) = 1"
    by (simp add: one_slot_blocked_state in_flight_def)
  have w: "snd (tasks (run demo_net 3 [Suc 0, 0] (start_batch one_slot_scraper two_urls)) ! 0)
             = Waiting"
          "0 < length (tasks (run demo_net 3 [Suc 0, 0] (start_batch one_slot_scraper two_urls)))"
    by (simp_all add: one_slot_blocked_state)
  from semaphore_bounds_in_flight [OF ok sem refl, of demo_net 3 "[Suc 0, 0]" two_urls] fl w
  show ?thesis by (simp add: one_slot_scraper_def)
qed

subsection \<open>Results in the order of the URLs\<close>

subsection \<open>Cancelling a task\<close>










subsection \<open>Which tasks end cancelled\<close>








subsection \<open>The results of a finished batch\<close>













section \<open>Properties of scraping a list of URLs\<close>





















end
